theory Spec2Isabelle
  imports Main "HOL-Library.Sublist"
begin

section \<open>JSON values and the Python operations the renderer applies to them\<close>

text \<open>
  The program works on the values \<^verbatim>\<open>json.load\<close> returns: \<^verbatim>\<open>None\<close>, booleans, numbers,
  strings, lists and dicts with string keys. A dict keeps its insertion order, so it is an
  association list in source key order (a Python dict has each key once). Numbers are
  Python ints; float values are outside this embedding. A character of a string is a code
  point below 256.
\<close>

datatype json =
    JNull
  | JBool bool
  | JInt int
  | JStr string
  | JArr "json list"
  | JObj "(string \<times> json) list"

text \<open>
  Exceptions are values. \<open>HTTPError code\<close> and \<open>URLError reason\<close> are what
  \<^verbatim>\<open>urllib.request.urlopen\<close> raises; \<open>Exception msg\<close> is the plain exception
  \<^verbatim>\<open>get_doc_url\<close> raises itself.
\<close>

datatype error =
    KeyError json
  | TypeError
  | AttributeError
  | IndexError
  | HTTPError nat
  | URLError string
  | Exception string

text \<open>Truth value of a JSON value under \<^verbatim>\<open>if x\<close> / \<^verbatim>\<open>not x\<close>.\<close>

fun truthy :: "json \<Rightarrow> bool" where
  "truthy JNull = False"
| "truthy (JBool b) = b"
| "truthy (JInt n) = (n \<noteq> 0)"
| "truthy (JStr s) = (s \<noteq> [])"
| "truthy (JArr xs) = (xs \<noteq> [])"
| "truthy (JObj kvs) = (kvs \<noteq> [])"

text \<open>
  Members of a Python set, and keys of a dict, are compared by hash and equality:
  \<^verbatim>\<open>True\<close> and \<^verbatim>\<open>1\<close> are the same member, lists and dicts are unhashable.
\<close>

datatype key = KNone | KNum int | KStr string

fun hash_key :: "json \<Rightarrow> error + key" where
  "hash_key JNull = Inr KNone"
| "hash_key (JBool b) = Inr (KNum (if b then 1 else 0))"
| "hash_key (JInt n) = Inr (KNum n)"
| "hash_key (JStr s) = Inr (KStr s)"
| "hash_key (JArr xs) = Inl TypeError"
| "hash_key (JObj kvs) = Inl TypeError"

text \<open>Python's \<^verbatim>\<open>==\<close> on JSON values: dicts compare as mappings, a bool equals its number.\<close>

fun py_eq :: "json \<Rightarrow> json \<Rightarrow> bool" where
  "py_eq JNull y = (y = JNull)"
| "py_eq (JBool a) y =
     (case y of JBool b \<Rightarrow> a = b | JInt n \<Rightarrow> (if a then 1 else 0) = n | _ \<Rightarrow> False)"
| "py_eq (JInt m) y =
     (case y of JBool b \<Rightarrow> m = (if b then 1 else 0) | JInt n \<Rightarrow> m = n | _ \<Rightarrow> False)"
| "py_eq (JStr s) y = (y = JStr s)"
| "py_eq (JArr xs) y = (case y of JArr ys \<Rightarrow> list_all2 py_eq xs ys | _ \<Rightarrow> False)"
| "py_eq (JObj kvs) y =
     (case y of
        JObj kws \<Rightarrow>
          length kvs = length kws \<and>
          list_all (\<lambda>(k, v). case map_of kws k of None \<Rightarrow> False | Some w \<Rightarrow> py_eq v w) kvs
      | _ \<Rightarrow> False)"

text \<open>\<^verbatim>\<open>item in container\<close>.\<close>

fun py_in :: "json \<Rightarrow> json \<Rightarrow> error + bool" where
  "py_in item (JObj kvs) =
     (case hash_key item of
        Inl e \<Rightarrow> Inl e
      | Inr (KStr s) \<Rightarrow> Inr (map_of kvs s \<noteq> None)
      | Inr _ \<Rightarrow> Inr False)"
| "py_in item (JArr xs) = Inr (list_ex (py_eq item) xs)"
| "py_in item (JStr s) = (case item of JStr t \<Rightarrow> Inr (sublist t s) | _ \<Rightarrow> Inl TypeError)"
| "py_in item _ = Inl TypeError"

text \<open>Indexing a sequence of length \<open>n\<close> with a Python int: \<open>-n \<le> i < n\<close> is in range, and a
  negative \<open>i\<close> reads position \<open>n + i\<close>.\<close>

definition seq_index :: "'a list \<Rightarrow> int \<Rightarrow> error + 'a" where
  "seq_index xs i =
     (if - int (length xs) \<le> i \<and> i < int (length xs)
      then Inr (xs ! nat (i mod int (length xs)))
      else Inl IndexError)"

text \<open>\<^verbatim>\<open>container[index]\<close>.\<close>

fun py_getitem :: "json \<Rightarrow> json \<Rightarrow> error + json" where
  "py_getitem (JObj kvs) idx =
     (case hash_key idx of
        Inl e \<Rightarrow> Inl e
      | Inr (KStr s) \<Rightarrow> (case map_of kvs s of Some v \<Rightarrow> Inr v | None \<Rightarrow> Inl (KeyError idx))
      | Inr _ \<Rightarrow> Inl (KeyError idx))"
| "py_getitem (JArr xs) idx =
     (case idx of
        JInt i \<Rightarrow> seq_index xs i
      | JBool b \<Rightarrow> seq_index xs (if b then 1 else 0)
      | _ \<Rightarrow> Inl TypeError)"
| "py_getitem (JStr s) idx =
     (case idx of
        JInt i \<Rightarrow> map_sum id (\<lambda>c. JStr [c]) (seq_index s i)
      | JBool b \<Rightarrow> map_sum id (\<lambda>c. JStr [c]) (seq_index s (if b then 1 else 0))
      | _ \<Rightarrow> Inl TypeError)"
| "py_getitem _ idx = Inl TypeError"

text \<open>The values a \<^verbatim>\<open>for\<close> loop over a JSON value visits.\<close>

fun py_iter :: "json \<Rightarrow> error + json list" where
  "py_iter (JArr xs) = Inr xs"
| "py_iter (JObj kvs) = Inr (map (\<lambda>kv. JStr (fst kv)) kvs)"
| "py_iter (JStr s) = Inr (map (\<lambda>c. JStr [c]) s)"
| "py_iter _ = Inl TypeError"

text \<open>\<^verbatim>\<open>d.get(k, default)\<close> on a dict.\<close>

definition dict_get :: "(string \<times> json) list \<Rightarrow> string \<Rightarrow> json \<Rightarrow> json" where
  "dict_get kvs k dflt = (case map_of kvs k of Some v \<Rightarrow> v | None \<Rightarrow> dflt)"

subsection \<open>Strings\<close>

definition py_rstrip :: "char \<Rightarrow> string \<Rightarrow> string" where
  "py_rstrip c s = rev (dropWhile (\<lambda>x. x = c) (rev s))"

definition py_strip :: "char \<Rightarrow> string \<Rightarrow> string" where
  "py_strip c s = py_rstrip c (dropWhile (\<lambda>x. x = c) s)"

text \<open>\<^verbatim>\<open>s.rsplit("/", 1)\<close> when \<open>s\<close> has a slash: the text before and after the last one.\<close>

definition rsplit_last :: "string \<Rightarrow> (string \<times> string) option" where
  "rsplit_last s =
     (if CHR ''/'' \<in> set s
      then Some (rev (tl (dropWhile (\<lambda>x. x \<noteq> CHR ''/'') (rev s))),
                 rev (takeWhile (\<lambda>x. x \<noteq> CHR ''/'') (rev s)))
      else None)"

text \<open>\<^verbatim>\<open>s.rsplit("/", 2)\<close>: at most two splits, taken from the right.\<close>

definition py_rsplit2 :: "string \<Rightarrow> string list" where
  "py_rsplit2 s =
     (case rsplit_last s of
        None \<Rightarrow> [s]
      | Some (h, n) \<Rightarrow>
          (case rsplit_last h of
             None \<Rightarrow> [h, n]
           | Some (h', p) \<Rightarrow> [h', p, n]))"

text \<open>
  \<^verbatim>\<open>str.lower\<close> on ASCII letters; the renderer applies it to its own literals
  \<^verbatim>\<open>"Classes"\<close>, \<^verbatim>\<open>"Properties"\<close> and \<^verbatim>\<open>"Vocabularies"\<close> only.
\<close>

definition lower_char :: "char \<Rightarrow> char" where
  "lower_char c =
     (let n = (of_char c :: nat) in if 65 \<le> n \<and> n \<le> 90 then char_of (n + 32) else c)"

definition py_lower :: "string \<Rightarrow> string" where
  "py_lower s = map lower_char s"

text \<open>\<^verbatim>\<open>html.escape(s)\<close> with its default \<^verbatim>\<open>quote=True\<close>.\<close>

definition escape_char :: "char \<Rightarrow> string" where
  "escape_char c =
     (if c = CHR ''&'' then ''&amp;''
      else if c = CHR ''<'' then ''&lt;''
      else if c = CHR ''>'' then ''&gt;''
      else if c = CHR 0x22 then ''&quot;''
      else if c = CHR 0x27 then ''&#x27;''
      else [c])"

definition html_escape :: "string \<Rightarrow> string" where
  "html_escape s = concat (map escape_char s)"

text \<open>
  \<^verbatim>\<open>html.escape\<close> calls \<^verbatim>\<open>s.replace\<close>, which only a string has: on any other value
  it raises AttributeError.
\<close>

fun html_escape_value :: "json \<Rightarrow> error + string" where
  "html_escape_value (JStr s) = Inr (html_escape s)"
| "html_escape_value _ = Inl AttributeError"

definition hex_digit :: "nat \<Rightarrow> char" where
  "hex_digit n = (if n < 10 then char_of (48 + n) else char_of (87 + n))"

text \<open>The body of \<^verbatim>\<open>json.dumps(s)\<close> for a string, with \<^verbatim>\<open>ensure_ascii\<close>.\<close>

definition dumps_char :: "char \<Rightarrow> string" where
  "dumps_char c =
     (let n = (of_char c :: nat) in
      if c = CHR 0x22 then [CHR 0x5C, CHR 0x22]
      else if c = CHR 0x5C then [CHR 0x5C, CHR 0x5C]
      else if c = CHR 0x0A then [CHR 0x5C, CHR ''n'']
      else if c = CHR 0x0D then [CHR 0x5C, CHR ''r'']
      else if c = CHR 0x09 then [CHR 0x5C, CHR ''t'']
      else if c = CHR 0x08 then [CHR 0x5C, CHR ''b'']
      else if c = CHR 0x0C then [CHR 0x5C, CHR ''f'']
      else if n < 32 \<or> 126 < n
        then [CHR 0x5C, CHR ''u'', CHR ''0'', CHR ''0'', hex_digit (n div 16), hex_digit (n mod 16)]
      else [c])"

definition dumps_str :: "string \<Rightarrow> string" where
  "dumps_str s = [CHR 0x22] @ concat (map dumps_char s) @ [CHR 0x22]"

fun digits :: "nat \<Rightarrow> string" where
  "digits n = (if n < 10 then [char_of (48 + n)] else digits (n div 10) @ [char_of (48 + n mod 10)])"

definition dumps_int :: "int \<Rightarrow> string" where
  "dumps_int i = (if i < 0 then CHR ''-'' # digits (nat (- i)) else digits (nat i))"

subsection \<open>Markup constants and helpers of the module\<close>

definition LBRACE :: string where
  "LBRACE = ''<span class='' @ [CHR 0x22] @ ''token'' @ [CHR 0x22] @ ''>{</span>''"

definition RBRACE :: string where
  "RBRACE = ''<span class='' @ [CHR 0x22] @ ''token'' @ [CHR 0x22] @ ''>}</span>''"

definition LBRACKET :: string where
  "LBRACKET = ''<span class='' @ [CHR 0x22] @ ''token'' @ [CHR 0x22] @ ''>[</span>''"

definition RBRACKET :: string where
  "RBRACKET = ''<span class='' @ [CHR 0x22] @ ''token'' @ [CHR 0x22] @ ''>]</span>''"

definition QUOTE :: string where
  "QUOTE = ''<span class='' @ [CHR 0x22] @ ''token'' @ [CHR 0x22] @ ''>'' @ [CHR 0x22] @ ''</span>''"

definition COLON :: string where
  "COLON = ''<span class='' @ [CHR 0x22] @ ''token'' @ [CHR 0x22] @ ''>:</span>''"

definition COMMA :: string where
  "COMMA = ''<span class='' @ [CHR 0x22] @ ''token'' @ [CHR 0x22] @ ''>,</span>''"

text \<open>\<^verbatim>\<open>string(s, cls)\<close>; the default of \<open>cls\<close> is \<^verbatim>\<open>"string"\<close>.\<close>

definition string_markup :: "string \<Rightarrow> string \<Rightarrow> string" where
  "string_markup s cls =
     QUOTE @ (''<span class='' @ [CHR 0x22] @ cls @ [CHR 0x22] @ ''>'')
       @ html_escape (py_strip (CHR 0x22) (dumps_str s)) @ ''</span>'' @ QUOTE"

definition indent_str :: "nat \<Rightarrow> string" where
  "indent_str i = concat (replicate i ''  '')"

text \<open>\<^verbatim>\<open>get_obj_id(obj)\<close> for a dict \<open>obj\<close>.\<close>

definition get_obj_id :: "(string \<times> json) list \<Rightarrow> json" where
  "get_obj_id obj = dict_get obj ''@id'' (dict_get obj ''spdxId'' JNull)"


section \<open>The render state and its operations\<close>

text \<open>
  The fields of an \<^verbatim>\<open>OutputFile\<close> that change during a render: \<open>f\<close> is the sequence of
  strings passed to \<^verbatim>\<open>self.f.write\<close>, in order. Two fields record what the render does
  and are never read by it: \<open>net_log\<close> holds the URLs passed to \<^verbatim>\<open>urlopen\<close> by
  \<^verbatim>\<open>get_doc_url\<close>, and \<open>id_log\<close> the value of every \<^verbatim>\<open>id\<close> attribute written, with
  the place that wrote it.
\<close>

datatype id_kind = ClassAnchor | PropertyAnchor | NodeId | ExternalId

record state =
  f :: "string list"
  anchors :: "key set"
  ids :: "key set"
  checked_urls :: "string set"
  net_log :: "string list"
  id_log :: "(id_kind \<times> string) list"

text \<open>
  A method returns a value or raises, and leaves a state behind in both cases (what was
  written before an exception stays written).
\<close>

type_synonym 'a run = "state \<Rightarrow> (error + 'a) \<times> state"

definition ret :: "'a \<Rightarrow> 'a run" where
  "ret x st = (Inr x, st)"

definition throw :: "error \<Rightarrow> 'a run" where
  "throw e st = (Inl e, st)"

definition bind :: "'a run \<Rightarrow> ('a \<Rightarrow> 'b run) \<Rightarrow> 'b run" where
  "bind m g st = (case m st of (Inl e, st') \<Rightarrow> (Inl e, st') | (Inr x, st') \<Rightarrow> g x st')"

definition lift :: "error + 'a \<Rightarrow> 'a run" where
  "lift r st = (r, st)"

definition get_state :: "state run" where
  "get_state st = (Inr st, st)"

definition when_do :: "bool \<Rightarrow> unit run \<Rightarrow> unit run" where
  "when_do b m = (if b then m else ret ())"

fun for_each :: "('a \<Rightarrow> unit run) \<Rightarrow> 'a list \<Rightarrow> unit run" where
  "for_each body [] = ret ()"
| "for_each body (x # xs) = bind (body x) (\<lambda>_. for_each body xs)"

text \<open>\<^verbatim>\<open>self.f.write(s)\<close> and \<^verbatim>\<open>self.newline()\<close>.\<close>

definition write_f :: "string \<Rightarrow> unit run" where
  "write_f s st = (Inr (), st\<lparr>f := f st @ [s]\<rparr>)"

definition newline :: "unit run" where
  "newline = write_f [CHR 0x0A]"

definition span_id_open :: "string \<Rightarrow> string" where
  "span_id_open s = ''<span id='' @ [CHR 0x22] @ s @ [CHR 0x22] @ ''>''"

definition a_href_open :: "string \<Rightarrow> string" where
  "a_href_open s = ''<a href='' @ [CHR 0x22] @ s @ [CHR 0x22] @ ''>''"

definition span_class :: "string \<Rightarrow> string \<Rightarrow> string" where
  "span_class cls body = ''<span class='' @ [CHR 0x22] @ cls @ [CHR 0x22] @ ''>'' @ body @ ''</span>''"

text \<open>
  \<^verbatim>\<open>self.f.write('<span id="' + html.escape(x) + '">')\<close>: the escape raises on a value that
  is not a string, before anything is written.
\<close>

definition write_id_span :: "id_kind \<Rightarrow> json \<Rightarrow> unit run" where
  "write_id_span kind x st =
     (case x of
        JStr s \<Rightarrow>
          (Inr (), st\<lparr>f := f st @ [span_id_open (html_escape s)],
                       id_log := id_log st @ [(kind, s)]\<rparr>)
      | _ \<Rightarrow> (Inl AttributeError, st))"

subsection \<open>\<^verbatim>\<open>OutputFile.get_anchor\<close>\<close>

text \<open>Lines 114 to 125: the candidate anchor, before the set of anchors is consulted.\<close>

definition anchor_candidate :: "json \<Rightarrow> string \<Rightarrow> json \<Rightarrow> error + json" where
  "anchor_candidate name prefix' context =
     (case py_in name context of
        Inl e \<Rightarrow> Inl e
      | Inr present \<Rightarrow>
          (case (if present
                 then (case py_getitem context name of
                         Inl e \<Rightarrow> Inl e
                       | Inr (JObj d) \<Rightarrow>
                           (case map_of d ''@id'' of Some i \<Rightarrow> Inr i | None \<Rightarrow> Inr JNull)
                       | Inr a \<Rightarrow> Inr a)
                 else Inr JNull) of
             Inl e \<Rightarrow> Inl e
           | Inr anchor \<Rightarrow>
               if \<not> truthy anchor
               then (case name of
                       JStr s \<Rightarrow> Inr (JStr (prefix' @ ''-'' @ s))
                     | _ \<Rightarrow> Inl TypeError)
               else Inr anchor))"

definition get_anchor :: "json \<Rightarrow> string \<Rightarrow> json \<Rightarrow> json option run" where
  "get_anchor name prefix' context st =
     (case anchor_candidate name prefix' context of
        Inl e \<Rightarrow> (Inl e, st)
      | Inr anchor \<Rightarrow>
          (case hash_key anchor of
             Inl e \<Rightarrow> (Inl e, st)
           | Inr k \<Rightarrow>
               if k \<in> anchors st then (Inr None, st)
               else (Inr (Some anchor), st\<lparr>anchors := insert k (anchors st)\<rparr>)))"

subsection \<open>\<^verbatim>\<open>OutputFile.index_data\<close>\<close>

definition ids_add :: "json \<Rightarrow> unit run" where
  "ids_add x st =
     (case hash_key x of
        Inl e \<Rightarrow> (Inl e, st)
      | Inr k \<Rightarrow> (Inr (), st\<lparr>ids := insert k (ids st)\<rparr>))"

text \<open>The body of the inner loop, line 142.\<close>

definition index_import :: "json \<Rightarrow> unit run" where
  "index_import i = bind (lift (py_getitem i (JStr ''externalSpdxId''))) ids_add"

text \<open>The body of the outer loop, lines 136 to 142; \<^verbatim>\<open>obj.get\<close> exists on a dict only.\<close>

definition index_obj :: "json \<Rightarrow> unit run" where
  "index_obj obj =
     (case obj of
        JObj d \<Rightarrow>
          (let obj_id = get_obj_id d in
           if \<not> truthy obj_id then ret ()
           else bind (ids_add obj_id) (\<lambda>_.
                bind (lift (py_getitem obj (JStr ''type''))) (\<lambda>t.
                if py_eq t (JStr ''SpdxDocument'')
                then bind (lift (py_iter (dict_get d ''import'' (JArr [])))) (for_each index_import)
                else ret ())))
      | _ \<Rightarrow> throw AttributeError)"

definition index_data :: "json \<Rightarrow> unit run" where
  "index_data data st =
     (let st0 = st\<lparr>anchors := {}, ids := {}\<rparr> in
      case data of
        JObj d \<Rightarrow> bind (lift (py_iter (dict_get d ''@graph'' (JArr [])))) (for_each index_obj) st0
      | _ \<Rightarrow> (Inl AttributeError, st0))"

subsection \<open>\<^verbatim>\<open>OutputFile.get_doc_url\<close>\<close>

text \<open>
  The network is a parameter: \<open>urlopen log url\<close> is \<open>None\<close> when the request for \<open>url\<close>
  succeeds and \<open>Some e\<close> when \<^verbatim>\<open>urlopen\<close> raises \<open>e\<close>; the answer may depend on the
  requests made before (\<open>log\<close>).
\<close>

type_synonym net = "string list \<Rightarrow> string \<Rightarrow> error option"

definition doc_url_of :: "string \<Rightarrow> string \<Rightarrow> string \<Rightarrow> string" where
  "doc_url_of profile typ n =
     ''https://spdx.github.io/spdx-spec/v3.0.1/model/'' @ profile @ ''/'' @ typ @ ''/'' @ n"

text \<open>
  Lines 145 to 169. The result is the sub-context with, when a documentation URL could be
  built, that URL and the kind it was built with.
\<close>

definition split_uri :: "json \<Rightarrow> string \<Rightarrow> json \<Rightarrow> error + (string \<times> string) option \<times> json" where
  "split_uri rdf_uri typ sub_context =
     (case rdf_uri of
        JStr s \<Rightarrow>
          (case py_rsplit2 (py_rstrip (CHR ''/'') s) of
             [_, profile, n] \<Rightarrow> Inr (Some (doc_url_of profile typ n, typ), sub_context)
           | _ \<Rightarrow> Inr (None, sub_context))
      | _ \<Rightarrow> Inl AttributeError)"

definition resolve :: "string option \<Rightarrow> string \<Rightarrow> json \<Rightarrow> error + (string \<times> string) option \<times> json" where
  "resolve typ name context =
     (case py_in (JStr ''@vocab'') context of
        Inl e \<Rightarrow> Inl e
      | Inr True \<Rightarrow>
          (case py_getitem context (JStr ''@vocab'') of
             Inl e \<Rightarrow> Inl e
           | Inr rdf_uri \<Rightarrow> split_uri rdf_uri ''Vocabularies'' context)
      | Inr False \<Rightarrow>
          (case typ of
             None \<Rightarrow> Inr (None, context)
           | Some t \<Rightarrow>
               (case py_in (JStr name) context of
                  Inl e \<Rightarrow> Inl e
                | Inr False \<Rightarrow> Inr (None, context)
                | Inr True \<Rightarrow>
                    (case py_getitem context (JStr name) of
                       Inl e \<Rightarrow> Inl e
                     | Inr (JObj d) \<Rightarrow>
                         (let sub_context = dict_get d ''@context'' context in
                          case map_of d ''@id'' of
                            Some rdf_uri \<Rightarrow> split_uri rdf_uri t sub_context
                          | None \<Rightarrow> Inr (None, sub_context))
                     | Inr rdf_uri \<Rightarrow> split_uri rdf_uri t context))))"

text \<open>Lines 171 to 180: the existence check of a URL that is not in \<open>checked_urls\<close>.\<close>

definition check_url :: "net \<Rightarrow> string \<Rightarrow> unit run" where
  "check_url urlopen url st =
     (if url \<notin> checked_urls st
      then (let st' = st\<lparr>net_log := net_log st @ [url]\<rparr> in
            case urlopen (net_log st) url of
              None \<Rightarrow> (Inr (), st')
            | Some (HTTPError code) \<Rightarrow>
                if code \<noteq> 404 then (Inl (HTTPError code), st')
                else (Inl (Exception (''Url '' @ [CHR 0x27] @ url @ '' is not valid'')), st')
            | Some e \<Rightarrow> (Inl e, st'))
      else (Inr (), st))"

definition checked_urls_add :: "string \<Rightarrow> unit run" where
  "checked_urls_add url st = (Inr (), st\<lparr>checked_urls := insert url (checked_urls st)\<rparr>)"

definition get_doc_url ::
  "net \<Rightarrow> string option \<Rightarrow> string \<Rightarrow> json \<Rightarrow> (string option \<times> json \<times> string option) run" where
  "get_doc_url urlopen typ name context =
     (case resolve typ name context of
        Inl e \<Rightarrow> throw e
      | Inr (None, sub_context) \<Rightarrow> ret (None, sub_context, None)
      | Inr (Some (url, typ'), sub_context) \<Rightarrow>
          bind (check_url urlopen url) (\<lambda>_.
          bind (checked_urls_add url) (\<lambda>_.
          ret (Some url, sub_context, Some (py_lower typ')))))"


section \<open>The renderer\<close>

text \<open>\<^verbatim>\<open>if anchor:\<close> on the result of \<^verbatim>\<open>get_anchor\<close>, and \<^verbatim>\<open>if doc_url:\<close>.\<close>

definition anchor_truthy :: "json option \<Rightarrow> bool" where
  "anchor_truthy anchor = (case anchor of None \<Rightarrow> False | Some a \<Rightarrow> truthy a)"

definition write_anchor_span :: "id_kind \<Rightarrow> json option \<Rightarrow> unit run" where
  "write_anchor_span kind anchor =
     (case anchor of
        None \<Rightarrow> ret ()
      | Some a \<Rightarrow> when_do (truthy a) (write_id_span kind a))"

definition str_truthy :: "string option \<Rightarrow> bool" where
  "str_truthy u = (case u of None \<Rightarrow> False | Some s \<Rightarrow> s \<noteq> [])"

text \<open>The string behind a result that \<^verbatim>\<open>if doc_url:\<close> has found to be one.\<close>

definition str_value :: "string option \<Rightarrow> string" where
  "str_value u = (case u of None \<Rightarrow> [] | Some s \<Rightarrow> s)"

text \<open>\<^verbatim>\<open>css_class or "string"\<close>, and a class formatted into the markup by an f-string.\<close>

definition or_string :: "string option \<Rightarrow> string" where
  "or_string c = (if str_truthy c then str_value c else ''string'')"

definition format_opt :: "string option \<Rightarrow> string" where
  "format_opt c = (case c of None \<Rightarrow> ''None'' | Some s \<Rightarrow> s)"

text \<open>
  \<^verbatim>\<open>write_value\<close>, \<^verbatim>\<open>write_key_value\<close>, \<^verbatim>\<open>write_list\<close> and \<^verbatim>\<open>write_obj\<close> call each
  other. \<open>write_list_items\<close> is the body of \<^verbatim>\<open>if lst:\<close> in \<^verbatim>\<open>write_list\<close> (every element
  but the last followed by a comma), \<open>write_obj_items\<close> the body of \<^verbatim>\<open>if keys:\<close> in
  \<^verbatim>\<open>write_obj\<close>; \<^verbatim>\<open>obj[k]\<close> for the keys \<open>k\<close> of \<open>obj\<close> in order gives the pairs of the
  association list in order.
\<close>

function
  write_value :: "net \<Rightarrow> json \<Rightarrow> nat \<Rightarrow> json \<Rightarrow> string option \<Rightarrow> unit run" and
  write_key_value :: "net \<Rightarrow> string \<Rightarrow> json \<Rightarrow> nat \<Rightarrow> json \<Rightarrow> unit run" and
  write_list_items :: "net \<Rightarrow> json list \<Rightarrow> nat \<Rightarrow> json \<Rightarrow> unit run" and
  write_list :: "net \<Rightarrow> json list \<Rightarrow> nat \<Rightarrow> json \<Rightarrow> unit run" and
  write_obj_items :: "net \<Rightarrow> (string \<times> json) list \<Rightarrow> nat \<Rightarrow> json \<Rightarrow> unit run" and
  write_obj :: "net \<Rightarrow> (string \<times> json) list \<Rightarrow> nat \<Rightarrow> json \<Rightarrow> unit run"
where
  "write_value urlopen (JStr v) indent context typ =
     bind (get_doc_url urlopen typ v context) (\<lambda>(doc_url, _, css_class).
     bind get_state (\<lambda>st.
       if KStr v \<in> ids st then
         bind (write_f (a_href_open (''#'' @ html_escape v))) (\<lambda>_.
         bind (write_f (string_markup v ''ident'')) (\<lambda>_.
         write_f ''</a>''))
       else if str_truthy doc_url then
         bind (write_f (a_href_open (html_escape (str_value doc_url)))) (\<lambda>_.
         bind (write_f (string_markup v (format_opt css_class))) (\<lambda>_.
         write_f ''</a>''))
       else if prefix ''http://'' v \<or> prefix ''https://'' v then
         bind (write_f (a_href_open (html_escape v))) (\<lambda>_.
         bind (write_f (string_markup v ''link'')) (\<lambda>_.
         write_f ''</a>''))
       else write_f (string_markup v ''string'')))"
| "write_value urlopen (JObj v) indent context typ = write_obj urlopen v indent context"
| "write_value urlopen (JArr v) indent context typ = write_list urlopen v indent context"
| "write_value urlopen (JBool v) indent context typ =
     write_f (span_class ''boolean'' (if v then ''true'' else ''false''))"
| "write_value urlopen (JInt v) indent context typ =
     write_f (span_class ''number'' (dumps_int v))"
| "write_value urlopen JNull indent context typ =
     write_f (span_class ''number'' ''null'')"

| "write_key_value urlopen k v indent context =
     bind (get_anchor (JStr k) ''property'' context) (\<lambda>anchor.
     bind (write_anchor_span PropertyAnchor anchor) (\<lambda>_.
     bind (write_f (indent_str indent)) (\<lambda>_.
     bind (get_doc_url urlopen (Some ''Properties'') k context) (\<lambda>(doc_url, sub_context, css_class).
     bind (when_do (str_truthy doc_url) (write_f (a_href_open (html_escape (str_value doc_url))))) (\<lambda>_.
     bind (write_f (string_markup k (or_string css_class))) (\<lambda>_.
     bind (when_do (str_truthy doc_url) (write_f ''</a>'')) (\<lambda>_.
     bind (write_f (COLON @ '' '')) (\<lambda>_.
     bind (write_value urlopen v indent sub_context
             (if k = ''type'' then Some ''Classes'' else None)) (\<lambda>_.
     when_do (anchor_truthy anchor) (write_f ''</span>''))))))))))"

| "write_list_items urlopen [] indent context = ret ()"
| "write_list_items urlopen [i] indent context =
     bind (write_f (indent_str (indent + 1))) (\<lambda>_.
     bind (write_value urlopen i (indent + 1) context None) (\<lambda>_.
     newline))"
| "write_list_items urlopen (i # i' # lst) indent context =
     bind (write_f (indent_str (indent + 1))) (\<lambda>_.
     bind (write_value urlopen i (indent + 1) context None) (\<lambda>_.
     bind (write_f COMMA) (\<lambda>_.
     bind newline (\<lambda>_.
     write_list_items urlopen (i' # lst) indent context))))"

| "write_list urlopen lst indent context =
     bind (write_f LBRACKET) (\<lambda>_.
     bind newline (\<lambda>_.
     bind (write_list_items urlopen lst indent context) (\<lambda>_.
     write_f (indent_str indent @ RBRACKET))))"

| "write_obj_items urlopen [] indent context = ret ()"
| "write_obj_items urlopen [(k, v)] indent context =
     bind (write_key_value urlopen k v (indent + 1) context) (\<lambda>_.
     newline)"
| "write_obj_items urlopen ((k, v) # kv # obj) indent context =
     bind (write_key_value urlopen k v (indent + 1) context) (\<lambda>_.
     bind (write_f COMMA) (\<lambda>_.
     bind newline (\<lambda>_.
     write_obj_items urlopen (kv # obj) indent context)))"

| "write_obj urlopen obj indent context =
     bind (case map_of obj ''type'' of
             Some t \<Rightarrow> get_anchor t ''class'' context
           | None \<Rightarrow> ret None) (\<lambda>anchor.
     bind (write_anchor_span ClassAnchor anchor) (\<lambda>_.
     bind (when_do (truthy (get_obj_id obj)) (write_id_span NodeId (get_obj_id obj))) (\<lambda>_.
     bind (when_do (truthy (dict_get obj ''externalSpdxId'' JNull))
             (write_id_span ExternalId (dict_get obj ''externalSpdxId'' JNull))) (\<lambda>_.
     bind (write_f LBRACE) (\<lambda>_.
     bind newline (\<lambda>_.
     bind (write_obj_items urlopen obj indent context) (\<lambda>_.
     bind (write_f (indent_str indent @ RBRACE)) (\<lambda>_.
     bind (when_do (truthy (dict_get obj ''externalSpdxId'' JNull)) (write_f ''</span>'')) (\<lambda>_.
     bind (when_do (truthy (get_obj_id obj)) (write_f ''</span>'')) (\<lambda>_.
     when_do (anchor_truthy anchor) (write_f ''</span>'')))))))))))"
  by pat_completeness auto


termination write_value
  apply (relation "measure (\<lambda>x. case x of
      Inl (Inl (u, v, i, c, t)) \<Rightarrow> 3 * size v
    | Inl (Inr (Inl (u, k, v, i, c))) \<Rightarrow> 3 * size v + 1
    | Inl (Inr (Inr (u, l, i, c))) \<Rightarrow> 3 * size_list size l + 1
    | Inr (Inl (u, l, i, c)) \<Rightarrow> 3 * size_list size l + 2
    | Inr (Inr (Inl (u, obj, i, c))) \<Rightarrow> 3 * size_list (size_prod (\<lambda>_. 0) size) obj + 1
    | Inr (Inr (Inr (u, obj, i, c))) \<Rightarrow> 3 * size_list (size_prod (\<lambda>_. 0) size) obj + 2)")
  apply simp_all
  done

text \<open>The legend \<^verbatim>\<open>write\<close> puts before the rendered document, one string per call.\<close>

definition legend :: "string list" where
  "legend =
     [''<table>'' @ [CHR 0x0A],
      ''<tr><th>Legend</th></tr>'' @ [CHR 0x0A],
      ''<tr><td>'' @ span_class ''string'' ''String'' @ ''</td></tr>'' @ [CHR 0x0A],
      ''<tr><td>'' @ span_class ''classes'' ''SPDX Class (link)'' @ ''</td></tr>'' @ [CHR 0x0A],
      ''<tr><td>'' @ span_class ''properties'' ''SPDX Property (link)'' @ ''</td></tr>'' @ [CHR 0x0A],
      ''<tr><td>'' @ span_class ''vocabularies'' ''SPDX Vocabulary (link)'' @ ''</td></tr>'' @ [CHR 0x0A],
      ''<tr><td>'' @ span_class ''ident'' ''Identifier IRI (link)'' @ ''</td></tr>'' @ [CHR 0x0A],
      ''</table>'' @ [CHR 0x0A]]"

text \<open>
  \<^verbatim>\<open>OutputFile.write\<close>, for \<^verbatim>\<open>self.data = data\<close> and \<^verbatim>\<open>self.context = context_doc\<close> (the
  document \<^verbatim>\<open>__init__\<close> fetched). \<^verbatim>\<open>index_data\<close> has raised already when \<open>data\<close> is not
  a dict.
\<close>

definition output_write :: "net \<Rightarrow> json \<Rightarrow> json \<Rightarrow> unit run" where
  "output_write urlopen data context_doc =
     bind (index_data data) (\<lambda>_.
     bind (for_each write_f legend) (\<lambda>_.
     bind (write_f (''<pre class='' @ [CHR 0x22] @ ''code'' @ [CHR 0x22] @ ''><code>'')) (\<lambda>_.
     bind (lift (py_getitem context_doc (JStr ''@context''))) (\<lambda>context.
     bind (case data of
             JObj obj \<Rightarrow> write_obj urlopen obj 0 context
           | _ \<Rightarrow> throw AttributeError) (\<lambda>_.
     write_f ''</code></pre>'')))))"

text \<open>The state of a new \<^verbatim>\<open>OutputFile\<close>: nothing written, nothing checked.\<close>

definition init_state :: state where
  "init_state = \<lparr>f = [], anchors = {}, ids = {}, checked_urls = {}, net_log = [], id_log = []\<rparr>"

definition spec_vocab_doc_url :: "string \<Rightarrow> string \<Rightarrow> string option" where
  "spec_vocab_doc_url vocab name =
     (case py_rsplit2 (py_rstrip (CHR ''/'') (vocab @ name)) of
        [_, profile, n] \<Rightarrow> Some (doc_url_of profile ''Vocabularies'' n)
      | _ \<Rightarrow> None)"

definition key_of :: "json \<Rightarrow> key set" where
  "key_of x = (case hash_key x of Inr k \<Rightarrow> {k} | Inl _ \<Rightarrow> {})"

definition import_ids :: "json \<Rightarrow> key set" where
  "import_ids imports =
     (case py_iter imports of
        Inr entries \<Rightarrow>
          (\<Union>i\<in>set entries. case py_getitem i (JStr ''externalSpdxId'') of
                                 Inr x \<Rightarrow> key_of x | Inl _ \<Rightarrow> {})
      | Inl _ \<Rightarrow> {})"

definition node_ids :: "json \<Rightarrow> key set" where
  "node_ids node =
     (case node of
        JObj d \<Rightarrow>
          if truthy (get_obj_id d)
          then key_of (get_obj_id d) \<union>
               (if map_of d ''type'' = Some (JStr ''SpdxDocument'')
                then import_ids (dict_get d ''import'' (JArr [])) else {})
          else {}
      | _ \<Rightarrow> {})"

definition claimed_node_ids :: "json \<Rightarrow> key set" where
  "claimed_node_ids node =
     (case node of
        JObj d \<Rightarrow>
          (if truthy (get_obj_id d) then key_of (get_obj_id d) else {}) \<union>
          (if map_of d ''type'' = Some (JStr ''SpdxDocument'')
           then import_ids (dict_get d ''import'' (JArr [])) else {})
      | _ \<Rightarrow> {})"


definition identity_index :: "json list \<Rightarrow> key set" where
  "identity_index graph = (\<Union>node\<in>set graph. node_ids node)"

definition claimed_identity_index :: "json list \<Rightarrow> key set" where
  "claimed_identity_index graph = (\<Union>node\<in>set graph. claimed_node_ids node)"

definition vocab_context :: json where
  "vocab_context = JObj [(''@vocab'', JStr ''https://spdx.org/rdf/3.0.1/terms/Core/HashAlgorithm/'')]"

definition core_context :: json where
  "core_context =
     JObj [(''SpdxDocument'', JStr ''https://spdx.org/rdf/3.0.1/terms/Core/SpdxDocument''),
           (''name'', JStr ''https://spdx.org/rdf/3.0.1/terms/Core/name''),
           (''algorithm'',
              JObj [(''@id'', JStr ''https://spdx.org/rdf/3.0.1/terms/Core/algorithm''),
                    (''@context'', vocab_context)])]"

definition unidentified_document :: "(string \<times> json) list" where
  "unidentified_document =
     [(''type'', JStr ''SpdxDocument''),
      (''import'', JArr [JObj [(''externalSpdxId'', JStr ''urn:ext'')]])]"

definition identified_document :: "(string \<times> json) list" where
  "identified_document =
     [(''spdxId'', JStr ''urn:doc''),
      (''type'', JStr ''SpdxDocument''),
      (''import'', JArr [JObj [(''externalSpdxId'', JStr ''urn:ext'')]])]"

definition untyped_node :: "(string \<times> json) list" where
  "untyped_node = [(''@id'', JStr ''urn:x''), (''name'', JStr ''x'')]"

text \<open>
  The structural token a written string carries: an opening brace or bracket is written
  alone, a closing one after the indentation of its line.
\<close>

datatype token = OpenBrace | CloseBrace | OpenBracket | CloseBracket

definition token_of :: "string \<Rightarrow> token option" where
  "token_of s =
     (if s = LBRACE then Some OpenBrace
      else if s = LBRACKET then Some OpenBracket
      else if dropWhile (\<lambda>c. c = CHR '' '') s = RBRACE then Some CloseBrace
      else if dropWhile (\<lambda>c. c = CHR '' '') s = RBRACKET then Some CloseBracket
      else None)"

definition count_token :: "token \<Rightarrow> string list \<Rightarrow> nat" where
  "count_token t out = length (filter (\<lambda>s. token_of s = Some t) out)"

text \<open>No prefix of the output closes more braces, or brackets, than it has opened.\<close>

definition balanced_prefixes :: "string list \<Rightarrow> bool" where
  "balanced_prefixes out =
     list_all (\<lambda>n. count_token CloseBrace (take n out) \<le> count_token OpenBrace (take n out) \<and>
                    count_token CloseBracket (take n out) \<le> count_token OpenBracket (take n out))
       [0..<Suc (length out)]"

text \<open>The nesting depth returns to zero: as many closing as opening tokens of each kind.\<close>

definition depth_zero :: "string list \<Rightarrow> bool" where
  "depth_zero out =
     (count_token CloseBrace out = count_token OpenBrace out \<and>
      count_token CloseBracket out = count_token OpenBracket out)"

text \<open>What was written to \<open>f\<close> between two states.\<close>

definition written :: "state \<Rightarrow> state \<Rightarrow> string list" where
  "written st st' = drop (length (f st)) (f st')"

text \<open>Reading the output with a stack of the tokens that are open.\<close>

fun scan :: "token list \<Rightarrow> string list \<Rightarrow> token list option" where
  "scan S [] = Some S"
| "scan S (c # cs) =
     (case token_of c of
        None \<Rightarrow> scan S cs
      | Some OpenBrace \<Rightarrow> scan (OpenBrace # S) cs
      | Some OpenBracket \<Rightarrow> scan (OpenBracket # S) cs
      | Some CloseBrace \<Rightarrow> (case S of OpenBrace # S' \<Rightarrow> scan S' cs | _ \<Rightarrow> None)
      | Some CloseBracket \<Rightarrow> (case S of OpenBracket # S' \<Rightarrow> scan S' cs | _ \<Rightarrow> None))"

text \<open>
  \<open>tracks S m S'\<close>: whatever \<open>m\<close> writes reads well from the stack \<open>S\<close>, and leaves the
  stack \<open>S'\<close> when \<open>m\<close> returns.
\<close>

definition tracks :: "token list \<Rightarrow> 'a run \<Rightarrow> token list \<Rightarrow> bool" where
  "tracks S m S' =
     (\<forall>st r st'. m st = (r, st') \<longrightarrow>
        (\<exists>new T. f st' = f st @ new \<and> scan S new = Some T \<and> (\<forall>x. r = Inr x \<longrightarrow> T = S')))"

definition sample_value :: json where
  "sample_value =
     JObj [(''a'', JArr [JInt 1, JObj [], JArr []]), (''b'', JStr ''}'')]"

text \<open>
  The pairs of an object as \<^verbatim>\<open>write_obj\<close> lays them out: what was written for each pair,
  followed by a comma and a newline, and by a newline alone after the last pair.
\<close>

fun pairs_layout :: "string list list \<Rightarrow> string list" where
  "pairs_layout [] = []"
| "pairs_layout [b] = b @ [[CHR 0x0A]]"
| "pairs_layout (b # b' # bs) = b @ [COMMA, [CHR 0x0A]] @ pairs_layout (b' # bs)"

text \<open>\<open>block\<close> is what a returning call of \<^verbatim>\<open>write_key_value\<close> for the pair writes.\<close>

definition renders_pair :: "net \<Rightarrow> nat \<Rightarrow> json \<Rightarrow> string \<times> json \<Rightarrow> string list \<Rightarrow> bool" where
  "renders_pair urlopen indent context kv block =
     (\<exists>s s'. write_key_value urlopen (fst kv) (snd kv) indent context s = (Inr (), s') \<and>
             f s' = f s @ block)"

definition ab_object :: "(string \<times> json) list" where
  "ab_object = [(''a'', JInt 1), (''b'', JInt 2)]"





text \<open>
  \<open>preserves I D m\<close>: from a state where \<open>I\<close> holds, \<open>m\<close> ends in a state where \<open>D\<close> holds,
  and where \<open>I\<close> holds again when \<open>m\<close> returns.
\<close>

definition preserves :: "(state \<Rightarrow> bool) \<Rightarrow> (state \<Rightarrow> bool) \<Rightarrow> 'a run \<Rightarrow> bool" where
  "preserves I D m =
     (\<forall>st r st'. I st \<longrightarrow> m st = (r, st') \<longrightarrow> D st' \<and> (\<forall>x. r = Inr x \<longrightarrow> I st'))"

text \<open>Every URL requested so far was requested once, and is in \<open>checked_urls\<close>.\<close>

definition requests_cached :: "state \<Rightarrow> bool" where
  "requests_cached st = (distinct (net_log st) \<and> set (net_log st) \<subseteq> checked_urls st)"

text \<open>The \<^verbatim>\<open>id\<close> values written for class and property anchors, in order.\<close>

definition anchor_ids :: "(id_kind \<times> string) list \<Rightarrow> string list" where
  "anchor_ids log = map snd (filter (\<lambda>e. fst e = ClassAnchor \<or> fst e = PropertyAnchor) log)"

text \<open>The anchors written so far are distinct, and all in the set \<open>anchors\<close>.\<close>

definition anchors_recorded :: "state \<Rightarrow> bool" where
  "anchors_recorded st =
     (distinct (anchor_ids (id_log st)) \<and> KStr ` set (anchor_ids (id_log st)) \<subseteq> anchors st)"

definition twin_terms_context :: json where
  "twin_terms_context =
     JObj [(''a'', JStr ''https://spdx.org/rdf/3.0.1/terms/Core/name''),
           (''b'', JStr ''https://spdx.org/rdf/3.0.1/terms/Core/name'')]"

definition twin_nodes_document :: json where
  "twin_nodes_document =
     JObj [(''@graph'',
            JArr [JObj [(''@id'', JStr ''urn:x''), (''type'', JStr ''Person'')],
                  JObj [(''@id'', JStr ''urn:x''), (''type'', JStr ''Person'')]])]"

text \<open>Everything but \<open>ids\<close> is as in \<open>st0\<close>.\<close>

definition same_frame :: "state \<Rightarrow> state \<Rightarrow> bool" where
  "same_frame st0 st =
     (f st = f st0 \<and> net_log st = net_log st0 \<and> checked_urls st = checked_urls st0 \<and>
      id_log st = id_log st0 \<and> anchors st = anchors st0)"

definition name_property_url :: string where
  "name_property_url = ''https://spdx.github.io/spdx-spec/v3.0.1/model/Core/Properties/name''"


lemma py_eq_JStr_right: "py_eq t (JStr s) = (t = JStr s)"
  by (cases t) auto

lemma bind_Inr: "m st = (Inr x, st1) \<Longrightarrow> bind m g st = g x st1"
  by (simp add: bind_def)

lemma bind_Inl: "m st = (Inl e, st1) \<Longrightarrow> bind m g st = (Inl e, st1)"
  by (simp add: bind_def)

lemma bind_ok_iff:
  "bind m g st = (Inr y, st') \<longleftrightarrow> (\<exists>x st1. m st = (Inr x, st1) \<and> g x st1 = (Inr y, st'))"
  by (auto simp: bind_def split: prod.splits sum.splits)

lemma ids_add_ok:
  "ids_add x st = (Inr u, st') \<Longrightarrow> st' = st\<lparr>ids := ids st \<union> key_of x\<rparr>"
  by (auto simp: ids_add_def key_of_def split: sum.splits)

lemma index_import_ok:
  "index_import i st = (Inr u, st') \<Longrightarrow>
     st' = st\<lparr>ids := ids st \<union> (case py_getitem i (JStr ''externalSpdxId'') of Inr x \<Rightarrow> key_of x | Inl _ \<Rightarrow> {})\<rparr>"
  by (auto simp: index_import_def bind_ok_iff lift_def dest!: ids_add_ok)

lemma for_each_index_import_ok:
  "for_each index_import entries st = (Inr u, st') \<Longrightarrow>
     st' = st\<lparr>ids := ids st \<union> (\<Union>i\<in>set entries. case py_getitem i (JStr ''externalSpdxId'') of
                                 Inr x \<Rightarrow> key_of x | Inl _ \<Rightarrow> {})\<rparr>"
proof (induction entries arbitrary: st)
  case Nil
  then show ?case by (simp add: ret_def)
next
  case (Cons i entries)
  from Cons.prems obtain st1 where a: "index_import i st = (Inr (), st1)"
    and b: "for_each index_import entries st1 = (Inr u, st')"
    by (auto simp: bind_ok_iff)
  show ?case
    using Cons.IH [OF b] index_import_ok [OF a] by (simp add: Un_assoc)
qed

lemma index_obj_ok:
  "index_obj node st = (Inr u, st') \<Longrightarrow> st' = st\<lparr>ids := ids st \<union> node_ids node\<rparr>"
  by (cases node)
     (auto simp: index_obj_def node_ids_def throw_def ret_def Let_def bind_ok_iff lift_def
          py_eq_JStr_right import_ids_def Un_assoc
        split: if_splits sum.splits option.splits key.splits
        dest!: ids_add_ok for_each_index_import_ok)

lemma for_each_index_obj_ok:
  "for_each index_obj graph st = (Inr u, st') \<Longrightarrow>
     st' = st\<lparr>ids := ids st \<union> (\<Union>node\<in>set graph. node_ids node)\<rparr>"
proof (induction graph arbitrary: st)
  case Nil
  then show ?case by (simp add: ret_def)
next
  case (Cons node graph)
  from Cons.prems obtain st1 where a: "index_obj node st = (Inr (), st1)"
    and b: "for_each index_obj graph st1 = (Inr u, st')"
    by (auto simp: bind_ok_iff)
  show ?case
    using Cons.IH [OF b] index_obj_ok [OF a] by (simp add: Un_assoc)
qed

text \<open>
  C5, amended: when \<^verbatim>\<open>index_data\<close> returns, \<open>ids\<close> is exactly the set of the identifiers
  (\<^verbatim>\<open>@id\<close>, else \<^verbatim>\<open>spdxId\<close>) of the top-level nodes that have one, together with the
  \<^verbatim>\<open>externalSpdxId\<close> of every import of every top-level node that has an identifier and
  whose type is \<^verbatim>\<open>"SpdxDocument"\<close>. A node without identifier is skipped, its imports
  included.
\<close>

theorem index_data_builds_identity_index:
  assumes "py_iter (dict_get d ''@graph'' (JArr [])) = Inr graph"
      and "index_data (JObj d) st = (Inr (), st')"
  shows "ids st' = identity_index graph"
  using assms
  by (auto simp: identity_index_def index_data_def Let_def bind_ok_iff lift_def dest!: for_each_index_obj_ok)

lemmas eval_defs = index_data_def Let_def bind_def lift_def index_obj_def ids_add_def
  index_import_def ret_def throw_def dict_get_def get_obj_id_def init_state_def

text \<open>Witness for C5: a graph with an identified SpdxDocument importing one external
  identifier, and a node without identifier.\<close>

theorem index_data_builds_identity_index_witness:
  "py_iter (dict_get [(''@graph'', JArr [JObj identified_document, JObj [(''name'', JStr ''n'')]])]
      ''@graph'' (JArr [])) = Inr [JObj identified_document, JObj [(''name'', JStr ''n'')]] \<and>
   fst (index_data (JObj [(''@graph'', JArr [JObj identified_document, JObj [(''name'', JStr ''n'')]])])
      init_state) = Inr () \<and>
   ids (snd (index_data (JObj [(''@graph'', JArr [JObj identified_document, JObj [(''name'', JStr ''n'')]])])
      init_state)) = {KStr ''urn:doc'', KStr ''urn:ext''}"
proof -
  let ?g = "[JObj identified_document, JObj [(''name'', JStr ''n'')]]"
  let ?d = "[(''@graph'', JArr ?g)]"
  have a: "py_iter (dict_get ?d ''@graph'' (JArr [])) = Inr ?g"
    by (simp add: dict_get_def)
  have b: "fst (index_data (JObj ?d) init_state) = Inr ()"
    by (simp add: eval_defs identified_document_def)
  then have c: "index_data (JObj ?d) init_state = (Inr (), snd (index_data (JObj ?d) init_state))"
    by (metis prod.collapse)
  have d: "identity_index ?g = {KStr ''urn:doc'', KStr ''urn:ext''}"
    by (auto simp: identity_index_def node_ids_def import_ids_def key_of_def dict_get_def
          get_obj_id_def identified_document_def)
  show ?thesis
    using a b index_data_builds_identity_index [OF a c] d by simp
qed

text \<open>
  Counterexample for C5 as stated: an SpdxDocument node without identifier is skipped before
  its type is looked at, so the identifiers of its imports are not indexed, while the
  claim's set holds them.
\<close>

theorem index_data_skips_imports_of_unidentified_document:
  "fst (index_data (JObj [(''@graph'', JArr [JObj unidentified_document])]) init_state) = Inr () \<and>
   ids (snd (index_data (JObj [(''@graph'', JArr [JObj unidentified_document])]) init_state)) = {} \<and>
   claimed_identity_index [JObj unidentified_document] = {KStr ''urn:ext''}"
  by (simp add: eval_defs unidentified_document_def claimed_identity_index_def
        claimed_node_ids_def import_ids_def key_of_def)


lemma for_each_append:
  "for_each body (xs @ ys) = bind (for_each body xs) (\<lambda>_. for_each body ys)"
  by (induction xs) (auto simp: bind_def ret_def fun_eq_iff split: prod.splits sum.splits)

lemma index_obj_untyped:
  assumes "truthy (get_obj_id node)" and "hash_key (get_obj_id node) = Inr k"
      and "map_of node ''type'' = None"
  shows "index_obj (JObj node) st = (Inl (KeyError (JStr ''type'')), st\<lparr>ids := insert k (ids st)\<rparr>)"
  using assms by (simp add: index_obj_def Let_def bind_def ids_add_def lift_def)

lemma index_obj_unidentified:
  "\<not> truthy (get_obj_id node) \<Longrightarrow> index_obj (JObj node) st = (Inr (), st)"
  by (simp add: index_obj_def Let_def ret_def)

text \<open>
  C10: a top-level node of \<^verbatim>\<open>@graph\<close> with an identifier and no \<^verbatim>\<open>type\<close> key makes
  \<^verbatim>\<open>index_data\<close> raise KeyError on \<^verbatim>\<open>obj["type"]\<close> (once the nodes before it are indexed),
  which aborts \<^verbatim>\<open>write\<close> before anything is written; a node without identifier returns
  before the lookup.
\<close>

theorem index_data_untyped_node_raises:
  assumes "py_iter (dict_get d ''@graph'' (JArr [])) = Inr (before @ JObj node # after)"
      and "for_each index_obj before (st\<lparr>anchors := {}, ids := {}\<rparr>) = (Inr (), st1)"
      and "truthy (get_obj_id node)"
      and "hash_key (get_obj_id node) = Inr k"
      and "map_of node ''type'' = None"
  shows "index_data (JObj d) st = (Inl (KeyError (JStr ''type'')), st1\<lparr>ids := insert k (ids st1)\<rparr>) \<and>
         output_write urlopen (JObj d) context_doc st =
           (Inl (KeyError (JStr ''type'')), st1\<lparr>ids := insert k (ids st1)\<rparr>) \<and>
         (\<forall>other s. \<not> truthy (get_obj_id other) \<longrightarrow> index_obj (JObj other) s = (Inr (), s))"
proof -
  have a: "for_each index_obj (before @ JObj node # after) (st\<lparr>anchors := {}, ids := {}\<rparr>) =
             (Inl (KeyError (JStr ''type'')), st1\<lparr>ids := insert k (ids st1)\<rparr>)"
    using assms(2) index_obj_untyped [OF assms(3-5), of st1]
    by (simp add: for_each_append bind_def)
  have b: "index_data (JObj d) st = (Inl (KeyError (JStr ''type'')), st1\<lparr>ids := insert k (ids st1)\<rparr>)"
    using assms(1) a by (simp add: index_data_def Let_def bind_def lift_def)
  show ?thesis
    using b index_obj_unidentified by (simp add: output_write_def bind_def)
qed

text \<open>Witness for C10.\<close>

theorem index_data_untyped_node_raises_witness:
  "index_data (JObj [(''@graph'', JArr [JObj identified_document, JObj untyped_node])]) init_state =
     (Inl (KeyError (JStr ''type'')), init_state\<lparr>ids := {KStr ''urn:x'', KStr ''urn:ext'', KStr ''urn:doc''}\<rparr>) \<and>
   output_write (\<lambda>_ _. None) (JObj [(''@graph'', JArr [JObj identified_document, JObj untyped_node])])
       (JObj [(''@context'', core_context)]) init_state =
     (Inl (KeyError (JStr ''type'')), init_state\<lparr>ids := {KStr ''urn:x'', KStr ''urn:ext'', KStr ''urn:doc''}\<rparr>) \<and>
   index_obj (JObj [(''name'', JStr ''n'')]) init_state = (Inr (), init_state)"
proof -
  let ?d = "[(''@graph'', JArr [JObj identified_document, JObj untyped_node])]"
  let ?s1 = "init_state\<lparr>ids := {KStr ''urn:ext'', KStr ''urn:doc''}\<rparr>"
  have a: "py_iter (dict_get ?d ''@graph'' (JArr [])) = Inr ([JObj identified_document] @ JObj untyped_node # [])"
    by (simp add: dict_get_def)
  have b: "for_each index_obj [JObj identified_document] (init_state\<lparr>anchors := {}, ids := {}\<rparr>) = (Inr (), ?s1)"
    by (simp add: eval_defs identified_document_def)
  have c: "truthy (get_obj_id untyped_node)"
    by (simp add: get_obj_id_def dict_get_def untyped_node_def)
  have d: "hash_key (get_obj_id untyped_node) = Inr (KStr ''urn:x'')"
    by (simp add: get_obj_id_def dict_get_def untyped_node_def)
  have e: "map_of untyped_node ''type'' = None"
    by (simp add: untyped_node_def)
  have g: "\<not> truthy (get_obj_id [(''name'', JStr ''n'')])"
    by (simp add: get_obj_id_def dict_get_def)
  show ?thesis
    using index_data_untyped_node_raises [OF a b c d e, of "\<lambda>_ _. None" "JObj [(''@context'', core_context)]"] g
    by simp
qed

lemmas resolve_defs = resolve_def split_uri_def py_rsplit2_def rsplit_last_def py_rstrip_def
  doc_url_of_def dict_get_def

lemma get_doc_url_unfold:
  "resolve typ name context = Inr (Some (url, typ'), sub_context) \<Longrightarrow>
   get_doc_url urlopen typ name context st =
     (case check_url urlopen url st of
        (Inl e, st1) \<Rightarrow> (Inl e, st1)
      | (Inr u, st1) \<Rightarrow>
          (Inr (Some url, sub_context, Some (py_lower typ')),
           st1\<lparr>checked_urls := insert url (checked_urls st1)\<rparr>))"
  by (simp add: get_doc_url_def bind_def checked_urls_add_def ret_def split: prod.splits sum.splits)

lemma check_url_fails:
  assumes "url \<notin> checked_urls st" and "urlopen (net_log st) url = Some e"
  shows "check_url urlopen url st =
           (Inl (if e = HTTPError 404
                 then Exception (''Url '' @ [CHR 0x27] @ url @ '' is not valid'') else e),
            st\<lparr>net_log := net_log st @ [url]\<rparr>)"
  using assms by (cases e) (simp_all add: check_url_def Let_def)




lemma check_url_cached:
  "url \<in> checked_urls st \<Longrightarrow> check_url urlopen url st = (Inr (), st)"
  by (simp add: check_url_def)

lemma check_url_opened:
  "url \<notin> checked_urls st \<Longrightarrow> urlopen (net_log st) url = None \<Longrightarrow>
     check_url urlopen url st = (Inr (), st\<lparr>net_log := net_log st @ [url]\<rparr>)"
  by (simp add: check_url_def Let_def)

lemma resolve_vocab:
  assumes "map_of ctx ''@vocab'' = Some (JStr iri)"
      and "py_rsplit2 (py_rstrip (CHR ''/'') iri) = [h, profile, n]"
  shows "resolve typ name (JObj ctx) =
           Inr (Some (doc_url_of profile ''Vocabularies'' n, ''Vocabularies''), JObj ctx)"
  using assms by (simp add: resolve_def split_uri_def)

lemma py_lower_Vocabularies: "py_lower ''Vocabularies'' = ''vocabularies''"
  by code_simp

text \<open>
  C6, amended: under a context with \<^verbatim>\<open>@vocab\<close>, the documentation URL is built from the
  vocabulary IRI alone, whatever name and kind are resolved: \<open>profile\<close> and \<open>n\<close> are the
  last two segments of that IRI (trailing slashes stripped), the kind is
  \<^verbatim>\<open>"Vocabularies"\<close> and the class \<^verbatim>\<open>"vocabularies"\<close>, once the URL passes validation.
\<close>

theorem get_doc_url_vocab:
  assumes "map_of ctx ''@vocab'' = Some (JStr iri)"
      and "py_rsplit2 (py_rstrip (CHR ''/'') iri) = [h, profile, n]"
      and "doc_url_of profile ''Vocabularies'' n \<in> checked_urls st \<or>
           urlopen (net_log st) (doc_url_of profile ''Vocabularies'' n) = None"
  shows "fst (get_doc_url urlopen typ name (JObj ctx) st) =
           Inr (Some (doc_url_of profile ''Vocabularies'' n), JObj ctx, Some ''vocabularies'')"
proof (cases "doc_url_of profile ''Vocabularies'' n \<in> checked_urls st")
  note r = resolve_vocab [OF assms(1,2)]
  case True
  show ?thesis
    using get_doc_url_unfold [OF r, where urlopen = urlopen and st = st]
      check_url_cached [OF True, of urlopen]
    by (simp add: py_lower_Vocabularies)
next
  case False
  with assms(3) have "urlopen (net_log st) (doc_url_of profile ''Vocabularies'' n) = None"
    by simp
  note r = resolve_vocab [OF assms(1,2)]
  from \<open>urlopen (net_log st) (doc_url_of profile ''Vocabularies'' n) = None\<close> show ?thesis
    using get_doc_url_unfold [OF r, where urlopen = urlopen and st = st]
      check_url_opened [where urlopen = urlopen, OF False]
    by (simp add: py_lower_Vocabularies)
qed

text \<open>
  Witness for C6 (amended).
\<close>

theorem get_doc_url_vocab_witness:
  "fst (get_doc_url (\<lambda>_ _. None) None ''sha256''
          (JObj [(''@vocab'', JStr ''https://spdx.org/rdf/3.0.1/terms/Core/HashAlgorithm/'')]) init_state) =
     Inr (Some ''https://spdx.github.io/spdx-spec/v3.0.1/model/Core/Vocabularies/HashAlgorithm'',
          JObj [(''@vocab'', JStr ''https://spdx.org/rdf/3.0.1/terms/Core/HashAlgorithm/'')],
          Some ''vocabularies'')"
proof -
  let ?iri = "''https://spdx.org/rdf/3.0.1/terms/Core/HashAlgorithm/''"
  have a: "map_of [(''@vocab'', JStr ?iri)] ''@vocab'' = Some (JStr ?iri)"
    by simp
  have b: "py_rsplit2 (py_rstrip (CHR ''/'') ?iri) =
             [''https://spdx.org/rdf/3.0.1/terms'', ''Core'', ''HashAlgorithm'']"
    by (simp add: py_rsplit2_def rsplit_last_def py_rstrip_def)
  have c: "doc_url_of ''Core'' ''Vocabularies'' ''HashAlgorithm'' \<in> checked_urls init_state \<or>
           (\<lambda>_ _. None) (net_log init_state) (doc_url_of ''Core'' ''Vocabularies'' ''HashAlgorithm'') = None"
    by simp
  show ?thesis
    using get_doc_url_vocab [OF a b, of init_state "\<lambda>_ _. None" None "''sha256''"]
    by (simp add: doc_url_of_def)
qed

text \<open>
  Counterexample for C6 as stated: under the vocabulary
  \<^verbatim>\<open>https://spdx.org/rdf/3.0.1/terms/Core/HashAlgorithm/\<close> the names \<^verbatim>\<open>sha256\<close> and
  \<^verbatim>\<open>sha512\<close> get the same URL, the page of the vocabulary, and not the URL that the last two
  segments of the IRI of \<^verbatim>\<open>sha256\<close> under that vocabulary would give.
\<close>

theorem get_doc_url_vocab_ignores_name:
  "fst (get_doc_url (\<lambda>_ _. None) None ''sha256'' vocab_context init_state) =
     Inr (Some ''https://spdx.github.io/spdx-spec/v3.0.1/model/Core/Vocabularies/HashAlgorithm'',
          vocab_context, Some ''vocabularies'') \<and>
   fst (get_doc_url (\<lambda>_ _. None) None ''sha512'' vocab_context init_state) =
     Inr (Some ''https://spdx.github.io/spdx-spec/v3.0.1/model/Core/Vocabularies/HashAlgorithm'',
          vocab_context, Some ''vocabularies'') \<and>
   spec_vocab_doc_url ''https://spdx.org/rdf/3.0.1/terms/Core/HashAlgorithm/'' ''sha256'' =
     Some ''https://spdx.github.io/spdx-spec/v3.0.1/model/HashAlgorithm/Vocabularies/sha256''"
  by (simp add: get_doc_url_def resolve_defs vocab_context_def bind_def check_url_def
        checked_urls_add_def ret_def init_state_def py_lower_Vocabularies spec_vocab_doc_url_def)

text \<open>
  C7, amended: for a name and a context mapping, the candidate is the context entry itself
  when that is a non-empty value that is not a descriptor object (a plain IRI string), the
  \<^verbatim>\<open>@id\<close> of a descriptor object when it has a non-empty one, and \<^verbatim>\<open>prefix + "-" + name\<close>
  otherwise.
\<close>

theorem anchor_candidate_dict:
  "anchor_candidate (JStr name) prefix' (JObj ctx) =
     Inr (case map_of ctx name of
            None \<Rightarrow> JStr (prefix' @ ''-'' @ name)
          | Some (JObj d) \<Rightarrow>
              (case map_of d ''@id'' of
                 None \<Rightarrow> JStr (prefix' @ ''-'' @ name)
               | Some i \<Rightarrow> if truthy i then i else JStr (prefix' @ ''-'' @ name))
          | Some a \<Rightarrow> if truthy a then a else JStr (prefix' @ ''-'' @ name))"
  by (auto simp: anchor_candidate_def split: option.splits json.splits)

text \<open>
  Counterexample for C7 as stated: \<^verbatim>\<open>name\<close> is mapped to a plain IRI string, and the
  candidate (and the anchor handed out) is that IRI, not \<^verbatim>\<open>property-name\<close>.
\<close>

theorem anchor_candidate_plain_iri:
  "anchor_candidate (JStr ''name'') ''property'' core_context =
     Inr (JStr ''https://spdx.org/rdf/3.0.1/terms/Core/name'') \<and>
   fst (get_anchor (JStr ''name'') ''property'' core_context init_state) =
     Inr (Some (JStr ''https://spdx.org/rdf/3.0.1/terms/Core/name'')) \<and>
   JStr ''https://spdx.org/rdf/3.0.1/terms/Core/name'' \<noteq> JStr (''property'' @ ''-'' @ ''name'')"
  by (simp add: get_anchor_def anchor_candidate_def core_context_def init_state_def)


lemma check_url_frame:
  "check_url urlopen url st = (r, st1) \<Longrightarrow>
     f st1 = f st \<and> ids st1 = ids st \<and> anchors st1 = anchors st \<and> id_log st1 = id_log st"
  by (auto simp: check_url_def Let_def split: if_splits option.splits error.splits)

lemma get_doc_url_frame:
  "get_doc_url urlopen typ name context st = (r, st1) \<Longrightarrow>
     f st1 = f st \<and> ids st1 = ids st \<and> anchors st1 = anchors st \<and> id_log st1 = id_log st"
  by (auto simp: get_doc_url_def throw_def ret_def bind_def checked_urls_add_def
        split: sum.splits option.splits prod.splits dest!: check_url_frame)

text \<open>
  C1: a string that is in \<open>ids\<close> is written as the same-page reference
  \<^verbatim>\<open><a href="#v">\<close>, the string styled \<^verbatim>\<open>ident\<close>, \<^verbatim>\<open></a>\<close>, whatever \<^verbatim>\<open>get_doc_url\<close>
  returned for it and whatever it begins with; nothing is written when \<^verbatim>\<open>get_doc_url\<close>
  raises.
\<close>

theorem write_value_identifier:
  assumes "KStr v \<in> ids st"
  shows "write_value urlopen (JStr v) indent context typ st =
           (case get_doc_url urlopen typ v context st of
              (Inl e, st1) \<Rightarrow> (Inl e, st1)
            | (Inr r, st1) \<Rightarrow>
                (Inr (), st1\<lparr>f := f st @ [a_href_open (''#'' @ html_escape v),
                                           string_markup v ''ident'', ''</a>'']\<rparr>))"
proof (cases "get_doc_url urlopen typ v context st")
  case (Pair r st1)
  note fr = get_doc_url_frame [OF Pair]
  show ?thesis
  proof (cases r)
    case (Inl e)
    with Pair show ?thesis by (simp add: bind_def)
  next
    case (Inr x)
    with Pair assms fr show ?thesis
      by (cases x) (simp add: bind_def get_state_def write_f_def)
  qed
qed

text \<open>
  Witness for C1: an identifier that begins with \<^verbatim>\<open>https://\<close> and resolves to a
  documentation URL under a vocabulary context.
\<close>

theorem write_value_identifier_witness:
  "KStr ''https://example.org/doc'' \<in> ids (init_state\<lparr>ids := {KStr ''https://example.org/doc''}\<rparr>) \<and>
   write_value (\<lambda>_ _. None) (JStr ''https://example.org/doc'') 0 vocab_context None
       (init_state\<lparr>ids := {KStr ''https://example.org/doc''}\<rparr>) =
     (Inr (),
      init_state\<lparr>f := [a_href_open (''#'' @ html_escape ''https://example.org/doc''),
                          string_markup ''https://example.org/doc'' ''ident'', ''</a>''],
                    ids := {KStr ''https://example.org/doc''},
                    checked_urls := {''https://spdx.github.io/spdx-spec/v3.0.1/model/Core/Vocabularies/HashAlgorithm''},
                    net_log := [''https://spdx.github.io/spdx-spec/v3.0.1/model/Core/Vocabularies/HashAlgorithm'']\<rparr>)"
proof -
  let ?st = "init_state\<lparr>ids := {KStr ''https://example.org/doc''}\<rparr>"
  let ?url = "''https://spdx.github.io/spdx-spec/v3.0.1/model/Core/Vocabularies/HashAlgorithm''"
  have a: "KStr ''https://example.org/doc'' \<in> ids ?st"
    by simp
  have b: "get_doc_url (\<lambda>_ _. None) None ''https://example.org/doc'' vocab_context ?st =
             (Inr (Some ?url, vocab_context, Some ''vocabularies''),
              ?st\<lparr>checked_urls := {?url}, net_log := [?url]\<rparr>)"
    by (simp add: get_doc_url_def resolve_defs vocab_context_def bind_def check_url_def
          checked_urls_add_def ret_def init_state_def py_lower_Vocabularies)
  show ?thesis
    using write_value_identifier [OF a, of "\<lambda>_ _. None" 0 vocab_context None] b
    by (simp add: init_state_def)
qed

lemmas markup_defs = LBRACE_def RBRACE_def LBRACKET_def RBRACKET_def QUOTE_def COLON_def COMMA_def

lemma dropWhile_indent: "dropWhile (\<lambda>c. c = CHR '' '') (indent_str n @ s) = dropWhile (\<lambda>c. c = CHR '' '') s"
  by (induction n) (simp_all add: indent_str_def)

lemma token_of_LBRACE: "token_of LBRACE = Some OpenBrace"
  by (simp add: token_of_def)

lemma token_of_LBRACKET: "token_of LBRACKET = Some OpenBracket"
  by (simp add: token_of_def markup_defs)

lemma token_of_RBRACE: "token_of (indent_str n @ RBRACE) = Some CloseBrace"
proof -
  have "indent_str n @ RBRACE \<noteq> LBRACE" "indent_str n @ RBRACE \<noteq> LBRACKET"
    by (cases n; simp add: markup_defs indent_str_def)+
  moreover have "dropWhile (\<lambda>c. c = CHR '' '') RBRACE = RBRACE"
    by (simp add: markup_defs)
  ultimately show ?thesis
    by (simp add: token_of_def dropWhile_indent)
qed

lemma token_of_RBRACKET: "token_of (indent_str n @ RBRACKET) = Some CloseBracket"
proof -
  have "indent_str n @ RBRACKET \<noteq> LBRACE" "indent_str n @ RBRACKET \<noteq> LBRACKET"
    by (cases n; simp add: markup_defs indent_str_def)+
  moreover have "dropWhile (\<lambda>c. c = CHR '' '') RBRACKET = RBRACKET" "RBRACKET \<noteq> RBRACE"
    by (simp_all add: markup_defs)
  ultimately show ?thesis
    by (simp add: token_of_def dropWhile_indent)
qed

lemma dropWhile_indent_only: "dropWhile (\<lambda>c. c = CHR '' '') (indent_str n) = []"
  using dropWhile_indent [of n "[]"] by simp

lemma token_of_indent [simp]: "token_of (indent_str n) = None"
proof -
  have "indent_str n \<noteq> LBRACE" "indent_str n \<noteq> LBRACKET"
    by (cases n; simp add: markup_defs indent_str_def)+
  then show ?thesis
    by (simp add: token_of_def dropWhile_indent_only) (simp add: markup_defs)
qed

lemma token_of_neutral [simp]:
  "token_of (a_href_open x) = None"
  "token_of (span_id_open x) = None"
  "token_of (string_markup v cls) = None"
  "token_of ''</a>'' = None"
  "token_of ''</span>'' = None"
  "token_of (span_class ''boolean'' b) = None"
  "token_of (span_class ''number'' b) = None"
  "token_of (COLON @ '' '') = None"
  "token_of COMMA = None"
  "token_of [CHR 0x0A] = None"
  by (simp_all add: token_of_def markup_defs a_href_open_def span_id_open_def string_markup_def
        span_class_def)


lemma scan_append:
  "scan S (xs @ ys) = (case scan S xs of None \<Rightarrow> None | Some T \<Rightarrow> scan T ys)"
  by (induction xs arbitrary: S) (auto split: option.splits token.splits list.splits)

lemma tracks_ret: "tracks S (ret x) S"
  by (simp add: tracks_def ret_def)

lemma tracks_throw: "tracks S (throw e) S'"
  by (simp add: tracks_def throw_def)

lemma tracks_lift: "tracks S (lift r) S"
  by (simp add: tracks_def lift_def)

lemma tracks_get_state: "tracks S get_state S"
  by (simp add: tracks_def get_state_def)

lemma tracks_bind:
  assumes "tracks S m S1" and "\<And>x. tracks S1 (g x) S2"
  shows "tracks S (bind m g) S2"
  unfolding tracks_def
proof (intro allI impI)
  fix st r st'
  assume run: "bind m g st = (r, st')"
  obtain r1 st1 where m: "m st = (r1, st1)"
    by (cases "m st")
  from assms(1) m obtain new1 T1 where
    n1: "f st1 = f st @ new1" "scan S new1 = Some T1" "\<forall>x. r1 = Inr x \<longrightarrow> T1 = S1"
    unfolding tracks_def by blast
  show "\<exists>new T. f st' = f st @ new \<and> scan S new = Some T \<and> (\<forall>x. r = Inr x \<longrightarrow> T = S2)"
  proof (cases r1)
    case (Inl e)
    with run m have "r = Inl e" "st' = st1"
      by (simp_all add: bind_def)
    with n1 show ?thesis by auto
  next
    case (Inr x)
    with run m have g: "g x st1 = (r, st')"
      by (simp add: bind_def)
    from assms(2) [of x] g obtain new2 T2 where
      n2: "f st' = f st1 @ new2" "scan S1 new2 = Some T2" "\<forall>y. r = Inr y \<longrightarrow> T2 = S2"
      unfolding tracks_def by blast
    from n1 Inr have "T1 = S1" by simp
    with n1 n2 have "f st' = f st @ (new1 @ new2)" "scan S (new1 @ new2) = Some T2"
      by (simp_all add: scan_append)
    with n2(3) show ?thesis by blast
  qed
qed

lemma tracks_when: "tracks S m S \<Longrightarrow> tracks S (when_do b m) S"
  by (simp add: when_do_def tracks_ret)

lemma tracks_write_neutral: "token_of c = None \<Longrightarrow> tracks S (write_f c) S"
  by (simp add: tracks_def write_f_def)

lemma tracks_open_brace: "tracks S (write_f LBRACE) (OpenBrace # S)"
  by (simp add: tracks_def write_f_def token_of_LBRACE)

lemma tracks_open_bracket: "tracks S (write_f LBRACKET) (OpenBracket # S)"
  by (simp add: tracks_def write_f_def token_of_LBRACKET)

lemma tracks_close_brace: "tracks (OpenBrace # S) (write_f (indent_str n @ RBRACE)) S"
  by (simp add: tracks_def write_f_def token_of_RBRACE)

lemma tracks_close_bracket: "tracks (OpenBracket # S) (write_f (indent_str n @ RBRACKET)) S"
  by (simp add: tracks_def write_f_def token_of_RBRACKET)

lemma tracks_newline: "tracks S newline S"
  by (simp add: newline_def tracks_write_neutral)

lemma tracks_write_id_span: "tracks S (write_id_span kind x) S"
  by (cases x) (simp_all add: tracks_def write_id_span_def)

lemma tracks_write_anchor_span: "tracks S (write_anchor_span kind anchor) S"
  by (cases anchor) (simp_all add: write_anchor_span_def tracks_ret tracks_when tracks_write_id_span)

lemma tracks_get_anchor: "tracks S (get_anchor name prefix' context) S"
  by (auto simp: tracks_def get_anchor_def split: sum.splits if_splits)

lemma tracks_get_doc_url: "tracks S (get_doc_url urlopen typ name context) S"
  using get_doc_url_frame by (fastforce simp: tracks_def)

lemmas tracks_neutral_rules =
  tracks_ret tracks_throw tracks_lift tracks_get_state tracks_newline tracks_write_id_span
  tracks_write_anchor_span tracks_get_anchor tracks_get_doc_url

lemma tracks_case_prod:
  "(\<And>a b. tracks S (h a b) S') \<Longrightarrow> tracks S (case x of (a, b) \<Rightarrow> h a b) S'"
  by (cases x) simp

lemma tracks_traversal:
  "\<And>S. tracks S (write_value u1 v indent cx ty) S"
  "\<And>S. tracks S (write_key_value u2 k v' indent1 cx1) S"
  "\<And>S. tracks S (write_list_items u3 lst indent2 cx2) S"
  "\<And>S. tracks S (write_list u4 lst' indent3 cx3) S"
  "\<And>S. tracks S (write_obj_items u5 obj indent4 cx4) S"
  "\<And>S. tracks S (write_obj u6 obj' indent5 cx5) S"
proof (induction u1 v indent cx ty and u2 k v' indent1 cx1
    and u3 lst indent2 cx2 and u4 lst' indent3 cx3
    and u5 obj indent4 cx4 and u6 obj' indent5 cx5
    rule: write_value_write_key_value_write_list_items_write_list_write_obj_items_write_obj.induct)
  case (1 urlopen v indent cx ty)
  show ?case
    unfolding write_value.simps
    by (intro tracks_bind [where ?S1.0 = S] tracks_neutral_rules)
       (auto intro!: tracks_bind [where ?S1.0 = S] tracks_write_neutral tracks_neutral_rules)
next
  case (2 urlopen v indent cx ty)
  then show ?case by simp
next
  case (3 urlopen v indent cx ty)
  then show ?case by simp
next
  case (4 urlopen v indent cx ty)
  show ?case by (simp add: tracks_write_neutral)
next
  case (5 urlopen v indent cx ty)
  show ?case by (simp add: tracks_write_neutral)
next
  case (6 urlopen indent cx ty)
  show ?case by (simp add: tracks_write_neutral)
next
  case (7 urlopen k v indent cx)
  show ?case
    unfolding write_key_value.simps
    by (intro tracks_bind [where ?S1.0 = S] tracks_case_prod tracks_neutral_rules tracks_when
          tracks_write_neutral "7.IH"; simp)
next
  case (8 urlopen indent cx)
  show ?case by (simp add: tracks_ret)
next
  case (9 urlopen i indent cx)
  show ?case
    unfolding write_list_items.simps
    by (intro tracks_bind [where ?S1.0 = S] tracks_neutral_rules tracks_write_neutral "9.IH") simp
next
  case (10 urlopen i i' lst indent cx)
  show ?case
    unfolding write_list_items.simps
    by (intro tracks_bind [where ?S1.0 = S] tracks_neutral_rules tracks_write_neutral "10.IH") simp_all
next
  case (11 urlopen lst indent cx)
  show ?case
    unfolding write_list.simps
    by (rule tracks_bind [OF tracks_open_bracket] tracks_bind [OF tracks_newline]
          tracks_bind [OF "11.IH"] tracks_close_bracket)+
next
  case (12 urlopen indent cx)
  show ?case by (simp add: tracks_ret)
next
  case (13 urlopen k v indent cx)
  show ?case
    unfolding write_obj_items.simps
    by (intro tracks_bind [where ?S1.0 = S] tracks_neutral_rules "13.IH")
next
  case (14 urlopen k v kv obj indent cx)
  show ?case
    unfolding write_obj_items.simps
    by (intro tracks_bind [where ?S1.0 = S] tracks_neutral_rules tracks_write_neutral "14.IH") simp
next
  case (15 urlopen obj indent cx)
  have a: "tracks S (case map_of obj ''type'' of None \<Rightarrow> ret None
                     | Some t \<Rightarrow> get_anchor t ''class'' cx) S"
    by (simp add: tracks_ret tracks_get_anchor split: option.splits)
  have closing: "tracks S (bind (when_do b1 (write_f ''</span>'')) (\<lambda>_.
                   bind (when_do b2 (write_f ''</span>'')) (\<lambda>_.
                   when_do b3 (write_f ''</span>'')))) S" for b1 b2 b3
    by (intro tracks_bind [where ?S1.0 = S] tracks_when tracks_write_neutral) simp_all
  show ?case
    unfolding write_obj.simps
    apply (rule tracks_bind [OF a])
    apply (rule tracks_bind [OF tracks_write_anchor_span])
    apply (rule tracks_bind [OF tracks_when [OF tracks_write_id_span]])
    apply (rule tracks_bind [OF tracks_when [OF tracks_write_id_span]])
    apply (rule tracks_bind [OF tracks_open_brace])
    apply (rule tracks_bind [OF tracks_newline])
    apply (rule tracks_bind [OF "15.IH"])
    apply (rule tracks_bind [OF tracks_close_brace])
    apply (rule closing)
    done
qed

lemma scan_counts:
  "scan S out = Some T \<Longrightarrow>
     count_token OpenBrace out + count_list S OpenBrace =
       count_token CloseBrace out + count_list T OpenBrace \<and>
     count_token OpenBracket out + count_list S OpenBracket =
       count_token CloseBracket out + count_list T OpenBracket"
proof (induction out arbitrary: S)
  case Nil
  then show ?case by (simp add: count_token_def)
next
  case (Cons c out)
  show ?case
  proof (cases "token_of c")
    case None
    with Cons.prems have "scan S out = Some T" by simp
    from Cons.IH [OF this] None show ?thesis by (simp add: count_token_def)
  next
    case (Some t)
    show ?thesis
    proof (cases t)
      case OpenBrace
      with Some Cons.prems have "scan (OpenBrace # S) out = Some T" by simp
      from Cons.IH [OF this] Some OpenBrace show ?thesis by (simp add: count_token_def)
    next
      case OpenBracket
      with Some Cons.prems have "scan (OpenBracket # S) out = Some T" by simp
      from Cons.IH [OF this] Some OpenBracket show ?thesis by (simp add: count_token_def)
    next
      case CloseBrace
      with Some Cons.prems obtain S' where S: "S = OpenBrace # S'" and "scan S' out = Some T"
        by (auto split: list.splits token.splits)
      from Cons.IH [OF this(2)] Some CloseBrace S show ?thesis by (simp add: count_token_def)
    next
      case CloseBracket
      with Some Cons.prems obtain S' where S: "S = OpenBracket # S'" and "scan S' out = Some T"
        by (auto split: list.splits token.splits)
      from Cons.IH [OF this(2)] Some CloseBracket S show ?thesis by (simp add: count_token_def)
    qed
  qed
qed

lemma scan_take: "scan S out = Some T \<Longrightarrow> \<exists>U. scan S (take n out) = Some U"
  using scan_append [of S "take n out" "drop n out"] by (auto split: option.splits)

lemma scan_balanced_prefixes:
  assumes "scan [] out = Some T"
  shows "balanced_prefixes out"
  unfolding balanced_prefixes_def list_all_iff
proof
  fix n
  from scan_take [OF assms, of n] obtain U where "scan [] (take n out) = Some U" ..
  from scan_counts [OF this]
  show "count_token CloseBrace (take n out) \<le> count_token OpenBrace (take n out) \<and>
        count_token CloseBracket (take n out) \<le> count_token OpenBracket (take n out)"
    by simp
qed

lemma scan_depth_zero: "scan [] out = Some [] \<Longrightarrow> depth_zero out"
  using scan_counts [of "[]" out "[]"] by (simp add: depth_zero_def)

text \<open>
  C8: in the sequence of strings \<^verbatim>\<open>write_value\<close> writes for a value, no prefix closes more
  braces (or brackets) than it has opened, whether the call returns or raises; when it
  returns, as many of each kind are closed as were opened. A structural token is one
  written string (\<open>token_of\<close>); text of the document is escaped and never is one.
\<close>

theorem write_value_balanced:
  assumes "write_value urlopen v indent context typ st = (r, st')"
  shows "f st' = f st @ written st st' \<and>
         balanced_prefixes (written st st') \<and>
         (r = Inr () \<longrightarrow> depth_zero (written st st'))"
proof -
  note t = tracks_traversal(1)
  from t [of "[]" urlopen v indent "context" "typ"] assms
  obtain new T where n: "f st' = f st @ new" "scan [] new = Some T" "\<forall>x. r = Inr x \<longrightarrow> T = []"
    unfolding tracks_def by blast
  from n(1) have w: "written st st' = new"
    by (simp add: written_def)
  show ?thesis
    using n w scan_balanced_prefixes [OF n(2)] scan_depth_zero [of new] by auto
qed

lemmas render_defs = bind_def ret_def throw_def lift_def get_state_def when_do_def write_f_def
  newline_def write_id_span_def write_anchor_span_def anchor_truthy_def str_truthy_def
  or_string_def str_value_def format_opt_def get_anchor_def anchor_candidate_def get_doc_url_def
  resolve_def get_obj_id_def dict_get_def init_state_def

lemma sample_run:
  "fst (write_value (\<lambda>_ _. None) sample_value 0 (JObj []) None init_state) = Inr ()"
  by (simp add: sample_value_def render_defs)

text \<open>
  Witness for C8: an object holding a list, an empty object, an empty list and a string
  that is a closing brace.
\<close>

theorem write_value_balanced_witness:
  "fst (write_value (\<lambda>_ _. None) sample_value 0 (JObj []) None init_state) = Inr () \<and>
   balanced_prefixes
     (written init_state (snd (write_value (\<lambda>_ _. None) sample_value 0 (JObj []) None init_state))) \<and>
   depth_zero
     (written init_state (snd (write_value (\<lambda>_ _. None) sample_value 0 (JObj []) None init_state)))"
proof -
  let ?run = "write_value (\<lambda>_ _. None) sample_value 0 (JObj []) None init_state"
  have "?run = (fst ?run, snd ?run)"
    by simp
  from write_value_balanced [OF this] sample_run show ?thesis
    by simp
qed

lemma write_key_value_appends:
  "write_key_value urlopen k v indent context st = (r, st') \<Longrightarrow> \<exists>block. f st' = f st @ block"
  using tracks_traversal(2) [of "[]" urlopen k v indent "context"] unfolding tracks_def by blast

lemma write_f_ok: "write_f c st = (r, st') \<longleftrightarrow> r = Inr () \<and> st' = st\<lparr>f := f st @ [c]\<rparr>"
  by (auto simp: write_f_def)

lemma write_obj_items_layout:
  "write_obj_items urlopen obj indent context st = (Inr (), st') \<Longrightarrow>
     \<exists>blocks. f st' = f st @ pairs_layout blocks \<and>
              list_all2 (renders_pair urlopen (indent + 1) context) obj blocks"
proof (induction obj arbitrary: st)
  case Nil
  then show ?case by (simp add: ret_def)
next
  case (Cons kv obj)
  obtain k v where kv: "kv = (k, v)" by (cases kv)
  show ?case
  proof (cases obj)
    case Nil
    with Cons.prems kv obtain s1 where
      a: "write_key_value urlopen k v (indent + 1) context st = (Inr (), s1)" and
      b: "st' = s1\<lparr>f := f s1 @ [[CHR 0x0A]]\<rparr>"
      by (auto simp: bind_ok_iff newline_def write_f_ok simp del: write_key_value.simps)
    from write_key_value_appends [OF a] obtain block where bl: "f s1 = f st @ block" ..
    with a kv have "renders_pair urlopen (indent + 1) context kv block"
      unfolding renders_pair_def by (auto simp del: write_key_value.simps)
    with b bl Nil show ?thesis
      by (intro exI [of _ "[block]"]) simp
  next
    case (Cons kv' rest)
    with Cons.prems kv obtain s1 s2 where
      a: "write_key_value urlopen k v (indent + 1) context st = (Inr (), s1)" and
      b: "s2 = s1\<lparr>f := f s1 @ [COMMA, [CHR 0x0A]]\<rparr>" and
      c: "write_obj_items urlopen obj indent context s2 = (Inr (), st')"
      by (auto simp: bind_ok_iff newline_def write_f_ok simp del: write_key_value.simps)
    from write_key_value_appends [OF a] obtain block where bl: "f s1 = f st @ block" ..
    with a kv have rp: "renders_pair urlopen (indent + 1) context kv block"
      unfolding renders_pair_def by (auto simp del: write_key_value.simps)
    from Cons.IH [OF c] obtain blocks where
      bs: "f st' = f s2 @ pairs_layout blocks"
        "list_all2 (renders_pair urlopen (indent + 1) context) obj blocks"
      by blast
    from bs(2) Cons obtain b' bs' where "blocks = b' # bs'"
      by (cases blocks) auto
    with b bl bs rp show ?thesis
      by (intro exI [of _ "block # blocks"]) simp
  qed
qed

lemma write_id_span_ok:
  "write_id_span kind x st = (Inr u, st') \<Longrightarrow> \<exists>p. f st' = f st @ [span_id_open p]"
  by (cases x) (auto simp: write_id_span_def)

lemma when_write_id_span_ok:
  "when_do b (write_id_span kind x) st = (Inr u, st') \<Longrightarrow>
     \<exists>pre. f st' = f st @ pre \<and> set pre \<subseteq> range span_id_open"
  by (cases b) (auto simp: when_do_def ret_def dest!: write_id_span_ok)

lemma write_anchor_span_ok:
  "write_anchor_span kind anchor st = (Inr u, st') \<Longrightarrow>
     \<exists>pre. f st' = f st @ pre \<and> set pre \<subseteq> range span_id_open"
  by (cases anchor) (auto simp: write_anchor_span_def ret_def dest!: when_write_id_span_ok)

lemma get_anchor_frame: "get_anchor name prefix' context st = (r, st') \<Longrightarrow> f st' = f st"
  by (auto simp: get_anchor_def split: sum.splits if_splits)

lemma when_close_ok:
  "when_do b (write_f ''</span>'') st = (r, st') \<Longrightarrow>
     \<exists>post. f st' = f st @ post \<and> set post \<subseteq> {''</span>''}"
  by (cases b) (auto simp: when_do_def ret_def write_f_def)

text \<open>
  C9: when \<^verbatim>\<open>write_obj\<close> returns, it has written the opening spans, the opening brace and a
  newline, then for the pairs of the object, in their order and one block for each pair,
  what \<^verbatim>\<open>write_key_value\<close> wrote for it, a comma and a newline after every block but the
  last and a newline alone after the last, then the closing brace and the closing spans.
\<close>

theorem write_obj_key_order:
  assumes "write_obj urlopen obj indent context st = (Inr (), st')"
  shows "\<exists>pre blocks post.
           f st' = f st @ pre @ [LBRACE, [CHR 0x0A]] @ pairs_layout blocks
                     @ [indent_str indent @ RBRACE] @ post \<and>
           list_all2 (renders_pair urlopen (indent + 1) context) obj blocks \<and>
           set pre \<subseteq> range span_id_open \<and> set post \<subseteq> {''</span>''}"
proof -
  from assms obtain anchor s1 s2 s3 s4 s5 s6 s7 s8 s9 where
    a1: "(case map_of obj ''type'' of Some t \<Rightarrow> get_anchor t ''class'' context | None \<Rightarrow> ret None) st
           = (Inr anchor, s1)" and
    a2: "write_anchor_span ClassAnchor anchor s1 = (Inr (), s2)" and
    a3: "when_do (truthy (get_obj_id obj)) (write_id_span NodeId (get_obj_id obj)) s2 = (Inr (), s3)" and
    a4: "when_do (truthy (dict_get obj ''externalSpdxId'' JNull))
           (write_id_span ExternalId (dict_get obj ''externalSpdxId'' JNull)) s3 = (Inr (), s4)" and
    a5: "s5 = s4\<lparr>f := f s4 @ [LBRACE, [CHR 0x0A]]\<rparr>" and
    a6: "write_obj_items urlopen obj indent context s5 = (Inr (), s6)" and
    a7: "s7 = s6\<lparr>f := f s6 @ [indent_str indent @ RBRACE]\<rparr>" and
    a8: "when_do (truthy (dict_get obj ''externalSpdxId'' JNull)) (write_f ''</span>'') s7 = (Inr (), s8)" and
    a9: "when_do (truthy (get_obj_id obj)) (write_f ''</span>'') s8 = (Inr (), s9)" and
    a10: "when_do (anchor_truthy anchor) (write_f ''</span>'') s9 = (Inr (), st')"
    by (auto simp: bind_ok_iff newline_def write_f_ok simp del: write_obj_items.simps)
  have f1: "f s1 = f st"
    using a1 by (auto simp: ret_def split: option.splits dest: get_anchor_frame)
  from write_anchor_span_ok [OF a2] obtain p2 where
    p2: "f s2 = f s1 @ p2" "set p2 \<subseteq> range span_id_open" by blast
  from when_write_id_span_ok [OF a3] obtain p3 where
    p3: "f s3 = f s2 @ p3" "set p3 \<subseteq> range span_id_open" by blast
  from when_write_id_span_ok [OF a4] obtain p4 where
    p4: "f s4 = f s3 @ p4" "set p4 \<subseteq> range span_id_open" by blast
  from write_obj_items_layout [OF a6] obtain blocks where
    bl: "f s6 = f s5 @ pairs_layout blocks"
      "list_all2 (renders_pair urlopen (indent + 1) context) obj blocks" by blast
  from when_close_ok [OF a8] obtain q8 where
    q8: "f s8 = f s7 @ q8" "set q8 \<subseteq> {''</span>''}" by blast
  from when_close_ok [OF a9] obtain q9 where
    q9: "f s9 = f s8 @ q9" "set q9 \<subseteq> {''</span>''}" by blast
  from when_close_ok [OF a10] obtain q10 where
    q10: "f st' = f s9 @ q10" "set q10 \<subseteq> {''</span>''}" by blast
  have "f st' = f st @ (p2 @ p3 @ p4) @ [LBRACE, [CHR 0x0A]] @ pairs_layout blocks
                  @ [indent_str indent @ RBRACE] @ (q8 @ q9 @ q10)"
    using f1 p2(1) p3(1) p4(1) a5 bl(1) a7 q8(1) q9(1) q10(1) by simp
  moreover have "set (p2 @ p3 @ p4) \<subseteq> range span_id_open"
    using p2(2) p3(2) p4(2) by simp
  moreover have "set (q8 @ q9 @ q10) \<subseteq> {''</span>''}"
    using q8(2) q9(2) q10(2) by simp
  ultimately show ?thesis
    using bl(2) by blast
qed

lemma ab_object_run:
  "write_obj (\<lambda>_ _. None) ab_object 0 (JObj []) init_state =
     (Inr (),
      init_state
        \<lparr>f := [LBRACE, [CHR 0x0A],
                span_id_open ''property-a'', indent_str 1, string_markup ''a'' ''string'',
                COLON @ '' '', span_class ''number'' ''1'', ''</span>'', COMMA, [CHR 0x0A],
                span_id_open ''property-b'', indent_str 1, string_markup ''b'' ''string'',
                COLON @ '' '', span_class ''number'' ''2'', ''</span>'', [CHR 0x0A],
                indent_str 0 @ RBRACE],
          anchors := {KStr ''property-b'', KStr ''property-a''},
          id_log := [(PropertyAnchor, ''property-a''), (PropertyAnchor, ''property-b'')]\<rparr>)"
  by code_simp

text \<open>Witness for C9: the object \<^verbatim>\<open>{"a": 1, "b": 2}\<close> and everything written for it.\<close>

theorem write_obj_key_order_witness:
  "write_obj (\<lambda>_ _. None) ab_object 0 (JObj []) init_state =
     (Inr (),
      init_state
        \<lparr>f := [LBRACE, [CHR 0x0A],
                span_id_open ''property-a'', indent_str 1, string_markup ''a'' ''string'',
                COLON @ '' '', span_class ''number'' ''1'', ''</span>'', COMMA, [CHR 0x0A],
                span_id_open ''property-b'', indent_str 1, string_markup ''b'' ''string'',
                COLON @ '' '', span_class ''number'' ''2'', ''</span>'', [CHR 0x0A],
                indent_str 0 @ RBRACE],
          anchors := {KStr ''property-b'', KStr ''property-a''},
          id_log := [(PropertyAnchor, ''property-a''), (PropertyAnchor, ''property-b'')]\<rparr>) \<and>
   (\<exists>pre blocks post.
      f (snd (write_obj (\<lambda>_ _. None) ab_object 0 (JObj []) init_state)) =
        f init_state @ pre @ [LBRACE, [CHR 0x0A]] @ pairs_layout blocks
          @ [indent_str 0 @ RBRACE] @ post \<and>
      list_all2 (renders_pair (\<lambda>_ _. None) (0 + 1) (JObj [])) ab_object blocks \<and>
      set pre \<subseteq> range span_id_open \<and> set post \<subseteq> {''</span>''})"
proof -
  let ?run = "write_obj (\<lambda>_ _. None) ab_object 0 (JObj []) init_state"
  have "?run = (Inr (), snd ?run)"
    using ab_object_run by simp
  from write_obj_key_order [OF this] ab_object_run show ?thesis
    by blast
qed

lemma bind_ret_left: "bind (ret x) g = g x"
  by (simp add: bind_def ret_def fun_eq_iff)

lemma preserves_bind:
  assumes "preserves I D m" and "\<And>x. preserves I D (g x)"
  shows "preserves I D (bind m g)"
  unfolding preserves_def
proof (intro allI impI)
  fix st r st'
  assume I: "I st" and run: "bind m g st = (r, st')"
  obtain r1 st1 where m: "m st = (r1, st1)"
    by (cases "m st")
  from assms(1) I m have p: "D st1" "\<forall>x. r1 = Inr x \<longrightarrow> I st1"
    unfolding preserves_def by blast+
  show "D st' \<and> (\<forall>x. r = Inr x \<longrightarrow> I st')"
  proof (cases r1)
    case (Inl e)
    with run m p show ?thesis by (auto simp: bind_def)
  next
    case (Inr x)
    with run m have "g x st1 = (r, st')" by (simp add: bind_def)
    moreover from p Inr have "I st1" by simp
    ultimately show ?thesis
      using assms(2) [of x] unfolding preserves_def by blast
  qed
qed

lemma preserves_pure:
  assumes "\<And>s. I s \<Longrightarrow> D s"
  shows "preserves I D (ret x)" "preserves I D (throw e)" "preserves I D (lift y)"
    "preserves I D get_state"
  using assms by (auto simp: preserves_def ret_def throw_def lift_def get_state_def)

lemma preserves_when:
  assumes "\<And>s. I s \<Longrightarrow> D s" and "preserves I D m"
  shows "preserves I D (when_do b m)"
  using assms by (simp add: when_do_def preserves_pure)

lemma preserves_case_prod:
  "(\<And>a b. preserves I D (h a b)) \<Longrightarrow> preserves I D (case x of (a, b) \<Rightarrow> h a b)"
  by (cases x) simp

lemma preserves_for_each:
  assumes "\<And>s. I s \<Longrightarrow> D s" and "\<And>x. preserves I D (body x)"
  shows "preserves I D (for_each body xs)"
  by (induction xs) (simp_all add: preserves_pure assms preserves_bind)

lemma preserves_traversal:
  assumes ID: "\<And>s. I s \<Longrightarrow> D s"
      and wf: "\<And>c. preserves I D (write_f c)"
      and ws: "\<And>x. preserves I D (write_id_span NodeId x)"
              "\<And>x. preserves I D (write_id_span ExternalId x)"
      and gd: "\<And>u ty name cx. preserves I D (get_doc_url u ty name cx)"
      and ga: "\<And>name pfx cx kind (g :: json option \<Rightarrow> unit run). (\<And>a. preserves I D (g a)) \<Longrightarrow>
                 preserves I D (bind (get_anchor name pfx cx) (\<lambda>anchor.
                                bind (write_anchor_span kind anchor) (\<lambda>_. g anchor)))"
  shows "preserves I D (write_value u1 v indent cx ty)"
    "preserves I D (write_key_value u2 k v' indent1 cx1)"
    "preserves I D (write_list_items u3 lst indent2 cx2)"
    "preserves I D (write_list u4 lst' indent3 cx3)"
    "preserves I D (write_obj_items u5 obj indent4 cx4)"
    "preserves I D (write_obj u6 obj' indent5 cx5)"
proof (induction u1 v indent cx ty and u2 k v' indent1 cx1
    and u3 lst indent2 cx2 and u4 lst' indent3 cx3
    and u5 obj indent4 cx4 and u6 obj' indent5 cx5
    rule: write_value_write_key_value_write_list_items_write_list_write_obj_items_write_obj.induct)
  case (1 urlopen v indent cx ty)
  show ?case
    unfolding write_value.simps
    by (intro preserves_bind preserves_case_prod gd preserves_pure(4) [OF ID])
       (auto intro!: preserves_bind wf)
next
  case (2 urlopen v indent cx ty)
  then show ?case by simp
next
  case (3 urlopen v indent cx ty)
  then show ?case by simp
next
  case (4 urlopen v indent cx ty)
  show ?case by (simp add: wf)
next
  case (5 urlopen v indent cx ty)
  show ?case by (simp add: wf)
next
  case (6 urlopen indent cx ty)
  show ?case by (simp add: wf)
next
  case (7 urlopen k v indent cx)
  show ?case
    unfolding write_key_value.simps
    by (rule ga) (intro preserves_bind preserves_case_prod gd wf preserves_when [OF ID] "7.IH")
next
  case (8 urlopen indent cx)
  show ?case by (simp add: preserves_pure [OF ID])
next
  case (9 urlopen i indent cx)
  show ?case
    unfolding write_list_items.simps newline_def
    by (intro preserves_bind wf "9.IH")
next
  case (10 urlopen i i' lst indent cx)
  show ?case
    unfolding write_list_items.simps newline_def
    by (intro preserves_bind wf "10.IH")
next
  case (11 urlopen lst indent cx)
  show ?case
    unfolding write_list.simps newline_def
    by (intro preserves_bind wf "11.IH")
next
  case (12 urlopen indent cx)
  show ?case by (simp add: preserves_pure [OF ID])
next
  case (13 urlopen k v indent cx)
  show ?case
    unfolding write_obj_items.simps newline_def
    by (intro preserves_bind wf "13.IH")
next
  case (14 urlopen k v kv obj indent cx)
  show ?case
    unfolding write_obj_items.simps newline_def
    by (intro preserves_bind wf "14.IH")
next
  case (15 urlopen obj indent cx)
  have rest: "preserves I D
      (bind (when_do (truthy (get_obj_id obj)) (write_id_span NodeId (get_obj_id obj))) (\<lambda>_.
       bind (when_do (truthy (dict_get obj ''externalSpdxId'' JNull))
               (write_id_span ExternalId (dict_get obj ''externalSpdxId'' JNull))) (\<lambda>_.
       bind (write_f LBRACE) (\<lambda>_.
       bind newline (\<lambda>_.
       bind (write_obj_items urlopen obj indent cx) (\<lambda>_.
       bind (write_f (indent_str indent @ RBRACE)) (\<lambda>_.
       bind (when_do (truthy (dict_get obj ''externalSpdxId'' JNull)) (write_f ''</span>'')) (\<lambda>_.
       bind (when_do (truthy (get_obj_id obj)) (write_f ''</span>'')) (\<lambda>_.
       when_do (anchor_truthy anchor) (write_f ''</span>''))))))))))" for anchor
    unfolding newline_def
    by (intro preserves_bind preserves_when [OF ID] wf ws "15.IH")
  show ?case
  proof (cases "map_of obj ''type''")
    case None
    then show ?thesis
      using rest [of None]
      by (simp add: bind_ret_left write_anchor_span_def)
  next
    case (Some t)
    then show ?thesis
      unfolding write_obj.simps
      by (simp del: write_obj_items.simps) (rule ga, rule rest)
  qed
qed

lemma preserves_frame:
  assumes "\<And>st r st'. m st = (r, st') \<Longrightarrow> I st \<Longrightarrow> I st'" and "\<And>s. I s \<Longrightarrow> D s"
  shows "preserves I D m"
  using assms unfolding preserves_def by blast

lemma ids_add_frame:
  "ids_add x st = (r, st') \<Longrightarrow>
     f st' = f st \<and> net_log st' = net_log st \<and> checked_urls st' = checked_urls st \<and>
     id_log st' = id_log st \<and> anchors st' = anchors st"
  by (auto simp: ids_add_def split: sum.splits)

lemma index_obj_frame: "preserves (same_frame st0) (same_frame st0) (index_obj node)"
proof -
  note pure = preserves_pure [of "same_frame st0" "same_frame st0"]
  have a: "preserves (same_frame st0) (same_frame st0) (ids_add x)" for x
    by (rule preserves_frame) (auto simp: same_frame_def dest!: ids_add_frame)
  have b: "preserves (same_frame st0) (same_frame st0) (index_import i)" for i
    unfolding index_import_def by (rule preserves_bind) (rule pure, assumption, rule a)
  have c: "preserves (same_frame st0) (same_frame st0)
             (bind (lift y) (for_each index_import))" for y
    by (rule preserves_bind) (rule pure, assumption, rule preserves_for_each, assumption, rule b)
  have d: "preserves (same_frame st0) (same_frame st0)
             (bind (ids_add x) (\<lambda>_. bind (lift y) (\<lambda>t.
                if py_eq t (JStr ''SpdxDocument'') then bind (lift z) (for_each index_import)
                else ret ())))" for x y z
    by (rule preserves_bind, rule a, rule preserves_bind, rule pure, assumption)
       (simp add: c pure)
  show ?thesis
  proof (cases node)
    case (JObj obj)
    then show ?thesis
      using d by (simp add: index_obj_def Let_def pure)
  qed (simp_all add: index_obj_def pure)
qed

lemma preservesD:
  "preserves I D m \<Longrightarrow> I st \<Longrightarrow> m st = (r, st') \<Longrightarrow> D st'"
  unfolding preserves_def by blast

lemma index_data_frame:
  assumes "index_data data st = (r, st')"
  shows "f st' = f st \<and> net_log st' = net_log st \<and> checked_urls st' = checked_urls st \<and>
         id_log st' = id_log st"
proof (cases data)
  case (JObj d)
  let ?st0 = "st\<lparr>anchors := {}, ids := {}\<rparr>"
  let ?m = "bind (lift (py_iter (dict_get d ''@graph'' (JArr [])))) (for_each index_obj)"
  have p: "preserves (same_frame ?st0) (same_frame ?st0) ?m"
    by (rule preserves_bind, rule preserves_pure, assumption)
       (rule preserves_for_each, assumption, rule index_obj_frame)
  have s: "same_frame ?st0 ?st0"
    by (simp add: same_frame_def)
  have "?m ?st0 = (r, st')"
    using assms JObj by (simp add: index_data_def Let_def)
  from preservesD [OF p s this] show ?thesis
    by (simp add: same_frame_def)
next
  case JNull
  with assms show ?thesis by (auto simp: index_data_def Let_def)
next
  case (JBool b)
  with assms show ?thesis by (auto simp: index_data_def Let_def)
next
  case (JInt n)
  with assms show ?thesis by (auto simp: index_data_def Let_def)
next
  case (JStr x)
  with assms show ?thesis by (auto simp: index_data_def Let_def)
next
  case (JArr xs)
  with assms show ?thesis by (auto simp: index_data_def Let_def)
qed

lemma requests_cached_distinct: "requests_cached s \<Longrightarrow> distinct (net_log s)"
  by (simp add: requests_cached_def)

lemma requests_write_f: "preserves requests_cached (\<lambda>s. distinct (net_log s)) (write_f c)"
  by (auto simp: preserves_def write_f_def requests_cached_def)

lemma requests_write_id_span: "preserves requests_cached (\<lambda>s. distinct (net_log s)) (write_id_span kind x)"
  by (cases x) (auto simp: preserves_def write_id_span_def requests_cached_def)

lemma requests_write_anchor_span:
  "preserves requests_cached (\<lambda>s. distinct (net_log s)) (write_anchor_span kind anchor)"
  by (cases anchor)
     (simp_all add: write_anchor_span_def preserves_pure requests_cached_distinct
        preserves_when requests_write_id_span)

lemma requests_get_anchor:
  "preserves requests_cached (\<lambda>s. distinct (net_log s)) (get_anchor name prefix' context)"
  by (auto simp: preserves_def get_anchor_def requests_cached_def split: sum.splits if_splits)

lemma check_url_uncached:
  assumes "url \<notin> checked_urls st" and "check_url urlopen url st = (r, st1)"
  shows "st1 = st\<lparr>net_log := net_log st @ [url]\<rparr>"
proof (cases "urlopen (net_log st) url")
  case None
  with assms show ?thesis by (simp add: check_url_def Let_def)
next
  case (Some e)
  with assms check_url_fails [where urlopen = urlopen and e = e, OF assms(1)] show ?thesis
    by simp
qed

lemma requests_check_url:
  assumes "requests_cached st" and "check_url urlopen url st = (r, st1)"
  shows "distinct (net_log st1) \<and>
         requests_cached (st1\<lparr>checked_urls := insert url (checked_urls st1)\<rparr>)"
proof (cases "url \<in> checked_urls st")
  case True
  with assms check_url_cached [OF True, of urlopen] show ?thesis
    by (auto simp: requests_cached_def)
next
  case False
  from check_url_uncached [OF False assms(2)] assms(1) False show ?thesis
    by (auto simp: requests_cached_def)
qed

lemma requests_get_doc_url:
  "preserves requests_cached (\<lambda>s. distinct (net_log s)) (get_doc_url urlopen typ name context)"
proof (cases "resolve typ name context")
  case (Inl e)
  then show ?thesis
    by (simp add: get_doc_url_def preserves_pure requests_cached_distinct)
next
  case (Inr res)
  obtain found sub_context where res: "res = (found, sub_context)" by (cases res)
  show ?thesis
  proof (cases found)
    case None
    with Inr res show ?thesis
      by (simp add: get_doc_url_def preserves_pure requests_cached_distinct)
  next
    case (Some ut)
    obtain url typ' where ut: "ut = (url, typ')" by (cases ut)
    have r: "resolve typ name context = Inr (Some (url, typ'), sub_context)"
      using Inr res Some ut by simp
    show ?thesis
      unfolding preserves_def get_doc_url_unfold [OF r]
      by (auto split: prod.splits sum.splits dest: requests_check_url)
  qed
qed



lemma requests_anchor_then_span:
  assumes "\<And>a. preserves requests_cached (\<lambda>s. distinct (net_log s)) (g a)"
  shows "preserves requests_cached (\<lambda>s. distinct (net_log s))
           (bind (get_anchor name pfx cx) (\<lambda>anchor.
            bind (write_anchor_span kind anchor) (\<lambda>_. g anchor)))"
  by (rule preserves_bind, rule requests_get_anchor, rule preserves_bind,
      rule requests_write_anchor_span, rule assms)

lemma requests_write_obj:
  "preserves requests_cached (\<lambda>s. distinct (net_log s)) (write_obj urlopen obj indent cx)"
  by (rule preserves_traversal(6) [where I = requests_cached])
     (rule requests_cached_distinct requests_write_f requests_write_id_span requests_get_doc_url
        requests_anchor_then_span | assumption)+

lemma requests_index_data:
  "preserves requests_cached (\<lambda>s. distinct (net_log s)) (index_data data)"
proof (rule preserves_frame)
  fix st r st'
  assume "index_data data st = (r, st')" and "requests_cached st"
  with index_data_frame [of data st r st'] show "requests_cached st'"
    by (simp add: requests_cached_def)
qed (rule requests_cached_distinct)

lemma requests_output_write:
  "preserves requests_cached (\<lambda>s. distinct (net_log s)) (output_write urlopen data context_doc)"
proof -
  note pure = preserves_pure [of requests_cached "\<lambda>s. distinct (net_log s)", OF requests_cached_distinct]
  have body: "preserves requests_cached (\<lambda>s. distinct (net_log s))
                (case data of JObj obj \<Rightarrow> write_obj urlopen obj 0 cx | _ \<Rightarrow> throw AttributeError)" for cx
    by (cases data) (simp_all add: pure requests_write_obj del: write_obj.simps)
  have legend: "preserves requests_cached (\<lambda>s. distinct (net_log s)) (for_each write_f legend)"
    by (rule preserves_for_each) (simp_all add: requests_cached_distinct requests_write_f)
  show ?thesis
    unfolding output_write_def
    by (intro preserves_bind requests_index_data legend requests_write_f pure body)
qed

text \<open>
  C3: in a render that starts with every earlier request in \<open>checked_urls\<close> (a new
  \<^verbatim>\<open>OutputFile\<close> has made none), no URL is passed to \<^verbatim>\<open>urlopen\<close> twice, whether the
  render returns or raises; and \<^verbatim>\<open>get_doc_url\<close> on a name whose documentation URL is in
  \<open>checked_urls\<close> returns that URL and leaves the state as it was, the list of requests
  included.
\<close>

theorem requests_made_once:
  assumes "requests_cached st"
  shows "(output_write urlopen data context_doc st = (r, st') \<longrightarrow> distinct (net_log st')) \<and>
         (resolve typ name context = Inr (Some (url, typ'), sub_context) \<and> url \<in> checked_urls st \<longrightarrow>
            get_doc_url urlopen typ name context st =
              (Inr (Some url, sub_context, Some (py_lower typ')), st))"
proof (intro conjI impI)
  assume "output_write urlopen data context_doc st = (r, st')"
  from preservesD [OF requests_output_write assms this] show "distinct (net_log st')" .
next
  assume a: "resolve typ name context = Inr (Some (url, typ'), sub_context) \<and> url \<in> checked_urls st"
  then have "insert url (checked_urls st) = checked_urls st"
    by auto
  with a show "get_doc_url urlopen typ name context st =
                 (Inr (Some url, sub_context, Some (py_lower typ')), st)"
    using get_doc_url_unfold [of "typ" name "context" url typ' sub_context urlopen st]
      check_url_cached [of url st urlopen]
    by simp
qed

lemma twin_terms_requests:
  "net_log (snd (output_write (\<lambda>_ _. None) (JObj ab_object)
       (JObj [(''@context'', twin_terms_context)]) init_state)) = [name_property_url]"
  by code_simp

lemma twin_terms_resolve:
  "resolve (Some ''Properties'') ''b'' twin_terms_context =
     Inr (Some (name_property_url, ''Properties''), twin_terms_context)"
  by code_simp

lemma py_lower_Properties: "py_lower ''Properties'' = ''properties''"
  by code_simp

text \<open>
  Witness for C3: the terms \<^verbatim>\<open>a\<close> and \<^verbatim>\<open>b\<close> have the same IRI; rendering \<^verbatim>\<open>{"a": 1, "b": 2}\<close>
  requests the URL of that property once.
\<close>

theorem requests_made_once_witness:
  "requests_cached init_state \<and>
   net_log (snd (output_write (\<lambda>_ _. None) (JObj ab_object)
       (JObj [(''@context'', twin_terms_context)]) init_state)) = [name_property_url] \<and>
   distinct (net_log (snd (output_write (\<lambda>_ _. None) (JObj ab_object)
       (JObj [(''@context'', twin_terms_context)]) init_state))) \<and>
   get_doc_url (\<lambda>_ _. None) (Some ''Properties'') ''b'' twin_terms_context
       (init_state\<lparr>checked_urls := {name_property_url}\<rparr>) =
     (Inr (Some name_property_url, twin_terms_context, Some ''properties''),
      init_state\<lparr>checked_urls := {name_property_url}\<rparr>)"
proof -
  let ?run = "output_write (\<lambda>_ _. None) (JObj ab_object)
       (JObj [(''@context'', twin_terms_context)]) init_state"
  let ?st = "init_state\<lparr>checked_urls := {name_property_url}\<rparr>"
  have a: "requests_cached init_state"
    by (simp add: requests_cached_def init_state_def)
  have b: "requests_cached ?st"
    by (simp add: requests_cached_def init_state_def)
  have c: "?run = (fst ?run, snd ?run)"
    by simp
  have d: "name_property_url \<in> checked_urls ?st"
    by simp
  note t1 = requests_made_once [OF a, where urlopen = "\<lambda>_ _. None" and data = "JObj ab_object"
      and context_doc = "JObj [(''@context'', twin_terms_context)]" and r = "fst ?run"
      and st' = "snd ?run"]
  note t2 = requests_made_once [OF b, where urlopen = "\<lambda>_ _. None" and name = "''b''"
      and url = name_property_url and typ' = "''Properties''" and sub_context = twin_terms_context]
  from t1 c have e: "distinct (net_log (snd ?run))"
    by blast
  from t2 twin_terms_resolve d
  have g: "get_doc_url (\<lambda>_ _. None) (Some ''Properties'') ''b'' twin_terms_context ?st =
             (Inr (Some name_property_url, twin_terms_context, Some (py_lower ''Properties'')), ?st)"
    by blast
  show ?thesis
    using a twin_terms_requests e g by (simp add: py_lower_Properties)
qed

lemma anchor_ids_append: "anchor_ids (xs @ ys) = anchor_ids xs @ anchor_ids ys"
  by (simp add: anchor_ids_def)

lemma recorded_write_f: "preserves anchors_recorded anchors_recorded (write_f c)"
  by (auto simp: preserves_def write_f_def anchors_recorded_def)

lemma recorded_write_node_id:
  "preserves anchors_recorded anchors_recorded (write_id_span NodeId x)"
  "preserves anchors_recorded anchors_recorded (write_id_span ExternalId x)"
  by (cases x; auto simp: preserves_def write_id_span_def anchors_recorded_def anchor_ids_append
        anchor_ids_def)+

lemma recorded_get_doc_url:
  "preserves anchors_recorded anchors_recorded (get_doc_url urlopen typ name context)"
proof (rule preserves_frame)
  fix st r st'
  assume "get_doc_url urlopen typ name context st = (r, st')" and "anchors_recorded st"
  with get_doc_url_frame [of urlopen "typ" name "context" st r st'] show "anchors_recorded st'"
    by (simp add: anchors_recorded_def)
qed

lemma get_anchor_result:
  assumes "get_anchor name pfx cx st = (r, st1)"
  shows "(\<forall>e. r = Inl e \<longrightarrow> st1 = st) \<and> (r = Inr None \<longrightarrow> st1 = st) \<and>
         (\<forall>a. r = Inr (Some a) \<longrightarrow>
            (\<exists>k. hash_key a = Inr k \<and> k \<notin> anchors st \<and> st1 = st\<lparr>anchors := insert k (anchors st)\<rparr>))"
  using assms by (auto simp: get_anchor_def split: sum.splits if_splits)

lemma recorded_anchor_then_span:
  assumes g: "\<And>a. preserves anchors_recorded anchors_recorded (g a)"
  shows "preserves anchors_recorded anchors_recorded
           (bind (get_anchor name pfx cx) (\<lambda>anchor.
            bind (write_anchor_span kind anchor) (\<lambda>_. g anchor)))"
  unfolding preserves_def
proof (intro allI impI)
  fix st r st'
  assume I: "anchors_recorded st"
    and run: "bind (get_anchor name pfx cx) (\<lambda>anchor.
                bind (write_anchor_span kind anchor) (\<lambda>_. g anchor)) st = (r, st')"
  obtain r1 s1 where ga: "get_anchor name pfx cx st = (r1, s1)"
    by (cases "get_anchor name pfx cx st")
  note res = get_anchor_result [OF ga]
  show "anchors_recorded st' \<and> (\<forall>x. r = Inr x \<longrightarrow> anchors_recorded st')"
  proof (cases r1)
    case (Inl e)
    with run ga res I show ?thesis by (auto simp: bind_def)
  next
    case (Inr anchor)
    with run ga have run2: "bind (write_anchor_span kind anchor) (\<lambda>_. g anchor) s1 = (r, st')"
      by (simp add: bind_def)
    have "anchors_recorded st'"
    proof (cases anchor)
      case None
      with Inr res have "s1 = st" by simp
      with run2 None have "g None st = (r, st')"
        by (simp add: write_anchor_span_def bind_ret_left)
      from preservesD [OF g I this] show ?thesis .
    next
      case (Some a)
      with Inr res obtain k where k: "hash_key a = Inr k" "k \<notin> anchors st"
        "s1 = st\<lparr>anchors := insert k (anchors st)\<rparr>"
        by auto
      from I k(3) have I1: "anchors_recorded s1"
        by (auto simp: anchors_recorded_def)
      show ?thesis
      proof (cases "truthy a")
        case False
        with run2 Some have "g anchor s1 = (r, st')"
          by (simp add: write_anchor_span_def when_do_def bind_ret_left)
        from preservesD [OF g I1 this] show ?thesis .
      next
        case True
        show ?thesis
        proof (cases a)
          case (JStr s)
          let ?s2 = "s1\<lparr>f := f s1 @ [span_id_open (html_escape s)],
                          id_log := id_log s1 @ [(kind, s)]\<rparr>"
          from run2 Some True JStr have run3: "g anchor ?s2 = (r, st')"
            by (simp add: write_anchor_span_def when_do_def write_id_span_def bind_def)
          from k JStr have "KStr s \<notin> anchors st" by simp
          with I have "s \<notin> set (anchor_ids (id_log st))"
            by (auto simp: anchors_recorded_def)
          with I k(3) JStr k(1) have "anchors_recorded ?s2"
            by (auto simp: anchors_recorded_def anchor_ids_append anchor_ids_def)
          from preservesD [OF g this run3] show ?thesis .
        next
          case JNull
          with run2 Some True I1 show ?thesis by simp
        next
          case (JBool b)
          with run2 Some True I1 show ?thesis
            by (auto simp: write_anchor_span_def when_do_def write_id_span_def bind_def)
        next
          case (JInt n)
          with run2 Some True I1 show ?thesis
            by (auto simp: write_anchor_span_def when_do_def write_id_span_def bind_def)
        next
          case (JArr xs)
          with run2 Some True I1 show ?thesis
            by (auto simp: write_anchor_span_def when_do_def write_id_span_def bind_def)
        next
          case (JObj kvs)
          with run2 Some True I1 show ?thesis
            by (auto simp: write_anchor_span_def when_do_def write_id_span_def bind_def)
        qed
      qed
    qed
    then show ?thesis by simp
  qed
qed

lemma recorded_write_obj:
  "preserves anchors_recorded anchors_recorded (write_obj urlopen obj indent cx)"
  by (rule preserves_traversal(6) [where I = anchors_recorded])
     (rule recorded_write_f recorded_write_node_id recorded_get_doc_url
        recorded_anchor_then_span | assumption)+

text \<open>
  C2, amended: in one render, the \<^verbatim>\<open>id\<close> values written for class and property anchors,
  those that \<^verbatim>\<open>get_anchor\<close> hands out, are pairwise distinct, whether the render returns
  or raises. The spans of node identifiers (\<^verbatim>\<open>@id\<close>, \<^verbatim>\<open>spdxId\<close>) and of
  \<^verbatim>\<open>externalSpdxId\<close> are written without consulting any set, and may repeat.
\<close>

theorem anchors_written_once:
  assumes "id_log st = []"
      and "output_write urlopen data context_doc st = (r, st')"
  shows "distinct (anchor_ids (id_log st'))"
proof -
  obtain r1 s1 where ix: "index_data data st = (r1, s1)"
    by (cases "index_data data st")
  from index_data_frame [OF ix] assms(1) have log1: "id_log s1 = []"
    by simp
  then have I1: "anchors_recorded s1"
    by (simp add: anchors_recorded_def anchor_ids_def)
  show ?thesis
  proof (cases r1)
    case (Inl e)
    with ix assms(2) have "st' = s1"
      by (simp add: output_write_def bind_def)
    with log1 show ?thesis by (simp add: anchor_ids_def)
  next
    case (Inr u)
    let ?rest = "bind (for_each write_f legend) (\<lambda>_.
       bind (write_f (''<pre class='' @ [CHR 0x22] @ ''code'' @ [CHR 0x22] @ ''><code>'')) (\<lambda>_.
       bind (lift (py_getitem context_doc (JStr ''@context''))) (\<lambda>cx.
       bind (case data of JObj obj \<Rightarrow> write_obj urlopen obj 0 cx | _ \<Rightarrow> throw AttributeError) (\<lambda>_.
       write_f ''</code></pre>''))))"
    note pure = preserves_pure [of anchors_recorded anchors_recorded]
    have body: "preserves anchors_recorded anchors_recorded
                  (case data of JObj obj \<Rightarrow> write_obj urlopen obj 0 cx | _ \<Rightarrow> throw AttributeError)" for cx
      by (cases data) (simp_all add: pure recorded_write_obj del: write_obj.simps)
    have legend: "preserves anchors_recorded anchors_recorded (for_each write_f legend)"
      by (rule preserves_for_each) (simp_all add: recorded_write_f)
    have p: "preserves anchors_recorded anchors_recorded ?rest"
      by (intro preserves_bind legend recorded_write_f body) (simp add: pure)
    from Inr ix assms(2) have "?rest s1 = (r, st')"
      by (simp add: output_write_def bind_def)
    from preservesD [OF p I1 this] show ?thesis
      by (simp add: anchors_recorded_def)
  qed
qed


lemma twin_nodes_run:
  "(case output_write (\<lambda>_ _. None) twin_nodes_document (JObj [(''@context'', JObj [])]) init_state of
      (r, s) \<Rightarrow> (r, id_log s, length (filter (\<lambda>c. c = span_id_open ''urn:x'') (f s)))) =
   (Inr (),
    [(PropertyAnchor, ''property-@graph''),
     (ClassAnchor, ''class-Person''), (NodeId, ''urn:x''),
     (PropertyAnchor, ''property-@id''), (PropertyAnchor, ''property-type''),
     (NodeId, ''urn:x'')],
    2)"
  by code_simp

text \<open>
  Counterexample for C2 as stated: two nodes of \<^verbatim>\<open>@graph\<close> with the identifier \<^verbatim>\<open>urn:x\<close>.
  The render returns, and has written \<^verbatim>\<open><span id="urn:x">\<close> twice.
\<close>

theorem node_id_written_twice:
  "fst (output_write (\<lambda>_ _. None) twin_nodes_document (JObj [(''@context'', JObj [])]) init_state) = Inr () \<and>
   length (filter (\<lambda>c. c = span_id_open ''urn:x'')
     (f (snd (output_write (\<lambda>_ _. None) twin_nodes_document (JObj [(''@context'', JObj [])]) init_state)))) = 2 \<and>
   filter (\<lambda>e. fst e = NodeId)
     (id_log (snd (output_write (\<lambda>_ _. None) twin_nodes_document (JObj [(''@context'', JObj [])]) init_state))) =
       [(NodeId, ''urn:x''), (NodeId, ''urn:x'')]"
  using twin_nodes_run
  by (cases "output_write (\<lambda>_ _. None) twin_nodes_document (JObj [(''@context'', JObj [])]) init_state")
     simp

text \<open>
  Witness for C2 (amended): in the same render the class \<^verbatim>\<open>Person\<close> and the keys
  \<^verbatim>\<open>@id\<close> and \<^verbatim>\<open>type\<close> occur twice, and each anchor is written once.
\<close>

theorem anchors_written_once_witness:
  "id_log init_state = [] \<and>
   anchor_ids (id_log (snd (output_write (\<lambda>_ _. None) twin_nodes_document
       (JObj [(''@context'', JObj [])]) init_state))) =
     [''property-@graph'', ''class-Person'', ''property-@id'', ''property-type''] \<and>
   distinct (anchor_ids (id_log (snd (output_write (\<lambda>_ _. None) twin_nodes_document
       (JObj [(''@context'', JObj [])]) init_state))))"
proof -
  let ?run = "output_write (\<lambda>_ _. None) twin_nodes_document (JObj [(''@context'', JObj [])]) init_state"
  have a: "id_log init_state = []"
    by (simp add: init_state_def)
  have b: "?run = (fst ?run, snd ?run)"
    by simp
  have c: "anchor_ids (id_log (snd ?run)) =
             [''property-@graph'', ''class-Person'', ''property-@id'', ''property-type'']"
    using twin_nodes_run by (cases ?run) (simp add: anchor_ids_def)
  from anchors_written_once [OF a b] a c show ?thesis
    by simp
qed


end
